theory Spec2Isabelle
  imports Complex_Main "HOL-Library.Char_ord" "HOL-Library.List_Lexorder"
begin

section \<open>Data model\<close>

text \<open>
  The billing code of SmartMeter-Vision (services/readings.ts, services/settings.ts and
  components/ReadingCard.tsx) is embedded as functions over an explicit database state.

  JavaScript numbers that carry meter values, tariffs and amounts are modelled as exact
  rationals (\<open>rat\<close>): rounding of IEEE doubles, \<open>NaN\<close> and the infinities are outside
  the model. Timestamps (milliseconds since the epoch, as \<open>Date.now()\<close> returns them) are
  integers. A field that may hold \<open>null\<close> or be missing is an \<open>option\<close>; both are
  treated alike by the \<open>??\<close> and \<open>||\<close> operators of the source.

  Every operation is one step on the database: its reads and its write see the same state,
  and calls of the database client fail only where the client reports a missing document.
  The one place where the steps of an operation are taken apart is the section on overlapping
  uploads.
\<close>

datatype status = Pending | Approved | Rejected

text \<open>The \<open>Reading\<close> document, without its id (the id is the key of the collection).\<close>

record reading =
  flatId :: string
  imageUrl :: string
  ocrReading :: "rat option"
  ocrConfidence :: "rat option"
  tenantReading :: "rat option"
  correctedReading :: "rat option"
  previousReading :: "rat option"
  unitsUsed :: "rat option"
  amount :: "rat option"
  status :: status
  createdAt :: int
  approvedAt :: "int option"
  yearMonth :: "string option"
  tariffAtApproval :: "rat option"
  unitFactorAtApproval :: "rat option"
  rejectionReason :: "string option"
  reopenReason :: "string option"

text \<open>The \<open>Flat\<close> document; its fields carry the prefix \<open>f_\<close> where the name is also a
  field of another document.\<close>

record flat =
  f_id :: string
  f_flatId :: string
  f_tenantName :: "string option"
  f_tariffPerUnit :: rat
  f_userId :: string
  initialReading :: "rat option"

text \<open>A value stored in a field of the settings document, as far as \<open>typeof\<close> tells
  values apart.\<close>

datatype jsval = JNumber rat | JString string | JBool bool | JNull

text \<open>The document \<open>settings/globalTariff\<close> (\<open>Partial<GlobalTariffDoc>\<close>): every field
  may be missing.\<close>

record GlobalTariffDoc =
  tariffPerUnit :: "jsval option"
  minimumPrice :: "jsval option"
  unitFactor :: "jsval option"

text \<open>
  The database: the \<open>readings\<close> collection as the list of its documents in the order a
  query returns them (ascending document id), the \<open>flats\<close> collection, and the single
  settings document, if it exists.
\<close>

record db =
  readings :: "(string \<times> reading) list"
  flats :: "flat list"
  settings :: "GlobalTariffDoc option"

text \<open>An error thrown by the code (\<open>new Error(message)\<close>), or the rejection of
  \<open>updateDoc\<close> on a document that does not exist.\<close>

datatype error = Error string | FirestoreNotFound

text \<open>What the code reads from the JavaScript runtime: the local calendar of \<open>Date\<close>
  and the locale's date format.\<close>

record jsenv =
  getFullYear :: "int \<Rightarrow> int"
  getMonth :: "int \<Rightarrow> nat"
  toLocaleDateString :: "int \<Rightarrow> string"

section \<open>JavaScript helpers\<close>

text \<open>\<open>a || b\<close> on numbers: \<open>b\<close> when \<open>a\<close> is missing, \<open>null\<close> or \<open>0\<close>.\<close>

definition js_or :: "int option \<Rightarrow> int \<Rightarrow> int" where
  "js_or a b = (case a of None \<Rightarrow> b | Some t \<Rightarrow> if t \<noteq> 0 then t else b)"

text \<open>\<open>a ?? b\<close>: \<open>b\<close> when \<open>a\<close> is missing or \<open>null\<close>.\<close>

definition nullish :: "'a option \<Rightarrow> 'a option \<Rightarrow> 'a option" where
  "nullish a b = (case a of None \<Rightarrow> b | Some v \<Rightarrow> Some v)"

text \<open>The decimal rendering of a number, as a template literal and \<open>String\<close> give it
  for an integer.\<close>

fun decimal :: "nat \<Rightarrow> string" where
  "decimal n =
     (if 10 \<le> n then decimal (n div 10) @ [''0123456789'' ! (n mod 10)]
      else [''0123456789'' ! n])"

definition showInt :: "int \<Rightarrow> string" where
  "showInt i = (if 0 \<le> i then decimal (nat i) else CHR ''-'' # decimal (nat (- i)))"

definition padStart :: "nat \<Rightarrow> char \<Rightarrow> string \<Rightarrow> string" where
  "padStart n c s = replicate (n - length s) c @ s"

text \<open>\<open>xs.sort((a, b) => key(b) - key(a))\<close>: a stable sort, descending in the key.\<close>

definition sortDesc :: "('a \<Rightarrow> int) \<Rightarrow> 'a list \<Rightarrow> 'a list" where
  "sortDesc key xs = sort_key (\<lambda>x. - key x) xs"

section \<open>The document store\<close>

definition getDoc :: "string \<Rightarrow> db \<Rightarrow> reading option" where
  "getDoc docId d = map_of (readings d) docId"

text \<open>\<open>updateDoc\<close> overwrites the given fields of an existing document and rejects when
  the document does not exist.\<close>

definition updateDoc :: "string \<Rightarrow> (reading \<Rightarrow> reading) \<Rightarrow> db \<Rightarrow> (error + unit) \<times> db" where
  "updateDoc docId upd d =
     (case getDoc docId d of
        None \<Rightarrow> (Inl FirestoreNotFound, d)
      | Some _ \<Rightarrow>
          (Inr (), d\<lparr>readings := map (\<lambda>(i, r). if i = docId then (i, upd r) else (i, r)) (readings d)\<rparr>))"

text \<open>\<open>addDoc\<close> stores a document under a generated id, here the argument \<open>newId\<close>.\<close>

definition addDoc :: "string \<Rightarrow> reading \<Rightarrow> db \<Rightarrow> db" where
  "addDoc newId r d = d\<lparr>readings := insort_key fst (newId, r) (readings d)\<rparr>"

text \<open>Modelled from the spec: \<open>getFlatByFlatId\<close> of services/flats.ts, which is not part
  of the sources at hand; it yields the flat with the given flat identifier, if any.\<close>

definition getFlatByFlatId :: "string \<Rightarrow> db \<Rightarrow> flat option" where
  "getFlatByFlatId fid d = find (\<lambda>f. f_flatId f = fid) (flats d)"

section \<open>Global settings (services/settings.ts)\<close>

definition getGlobalTariff :: "db \<Rightarrow> rat" where
  "getGlobalTariff d =
     (case settings d of
        None \<Rightarrow> 0
      | Some data \<Rightarrow> (case tariffPerUnit data of Some (JNumber n) \<Rightarrow> n | _ \<Rightarrow> 0))"

definition getMinimumPrice :: "db \<Rightarrow> rat" where
  "getMinimumPrice d =
     (case settings d of
        None \<Rightarrow> 250
      | Some data \<Rightarrow> (case minimumPrice data of Some (JNumber n) \<Rightarrow> n | _ \<Rightarrow> 250))"

definition getUnitFactor :: "db \<Rightarrow> rat" where
  "getUnitFactor d =
     (case settings d of
        None \<Rightarrow> 23 / 10
      | Some data \<Rightarrow> (case unitFactor data of Some (JNumber n) \<Rightarrow> n | _ \<Rightarrow> 23 / 10))"

text \<open>\<open>setDoc(ref, fields, {merge: true})\<close>: creates the document when it is missing and
  leaves the fields that are not named as they are.\<close>

definition mergeSettings :: "(GlobalTariffDoc \<Rightarrow> GlobalTariffDoc) \<Rightarrow> db \<Rightarrow> db" where
  "mergeSettings upd d =
     d\<lparr>settings := Some (upd (case settings d of
                               None \<Rightarrow> \<lparr>tariffPerUnit = None, minimumPrice = None, unitFactor = None\<rparr>
                             | Some data \<Rightarrow> data))\<rparr>"

definition updateGlobalTariff :: "rat \<Rightarrow> db \<Rightarrow> db" where
  "updateGlobalTariff t d = mergeSettings (\<lambda>data. data\<lparr>tariffPerUnit := Some (JNumber t)\<rparr>) d"

definition updateMinimumPrice :: "rat \<Rightarrow> db \<Rightarrow> db" where
  "updateMinimumPrice m d = mergeSettings (\<lambda>data. data\<lparr>minimumPrice := Some (JNumber m)\<rparr>) d"

definition updateUnitFactor :: "rat \<Rightarrow> db \<Rightarrow> db" where
  "updateUnitFactor u d = mergeSettings (\<lambda>data. data\<lparr>unitFactor := Some (JNumber u)\<rparr>) d"

section \<open>Readings (services/readings.ts)\<close>

definition getYearMonth :: "jsenv \<Rightarrow> int \<Rightarrow> string" where
  "getYearMonth env timestamp =
     (let year = getFullYear env timestamp;
          month = padStart 2 CHR ''0'' (decimal (getMonth env timestamp + 1))
      in showInt year @ ''-'' @ month)"

text \<open>The year-month bucket of a reading: \<open>r.yearMonth ?? getYearMonth(r.createdAt || 0)\<close>.\<close>

definition bucket :: "jsenv \<Rightarrow> reading \<Rightarrow> string" where
  "bucket env r =
     (case yearMonth r of
        Some ym \<Rightarrow> ym
      | None \<Rightarrow> getYearMonth env (js_or (Some (createdAt r)) 0))"

text \<open>The readings of the flat that block an upload in the month \<open>ym\<close>. The type of
  \<open>status\<close> has no missing value, so \<open>r.status ?? 'pending'\<close> is \<open>r.status\<close>.\<close>

definition uploadsThisMonth :: "jsenv \<Rightarrow> string \<Rightarrow> string \<Rightarrow> db \<Rightarrow> (string \<times> reading) list" where
  "uploadsThisMonth env fid ym d =
     filter (\<lambda>(i, r). status r \<noteq> Rejected)
       (filter (\<lambda>(i, r). bucket env r = ym)
          (filter (\<lambda>(i, r). flatId r = fid) (readings d)))"

definition limitMessage :: "string option \<Rightarrow> string" where
  "limitMessage dateStr =
     (case dateStr of
        None \<Rightarrow> ''Upload limit reached for this calendar month (pending/approved reading exists).''
      | Some s \<Rightarrow>
          if s \<noteq> [] then
            ''Upload limit reached. You already have a pending/approved upload on '' @ s
              @ ''. Try again next month.''
          else ''Upload limit reached for this calendar month (pending/approved reading exists).'')"

definition newReading :: "string \<Rightarrow> string \<Rightarrow> rat option \<Rightarrow> int \<Rightarrow> string \<Rightarrow> reading" where
  "newReading fid url tenant now ym =
     \<lparr>flatId = fid, imageUrl = url, ocrReading = None, ocrConfidence = None,
      tenantReading = tenant, correctedReading = None, previousReading = None,
      unitsUsed = None, amount = None, status = Pending, createdAt = now,
      approvedAt = None, yearMonth = Some ym, tariffAtApproval = None,
      unitFactorAtApproval = None, rejectionReason = None, reopenReason = None\<rparr>"

text \<open>\<open>createReadingFromImage\<close>; \<open>now\<close> is the value of \<open>Date.now()\<close> and \<open>newId\<close> the
  id that \<open>addDoc\<close> generates.\<close>

definition createReadingFromImage ::
  "jsenv \<Rightarrow> string \<Rightarrow> int \<Rightarrow> string \<Rightarrow> string \<Rightarrow> rat option \<Rightarrow> db \<Rightarrow> (error + unit) \<times> db" where
  "createReadingFromImage env newId now fid url tenant d =
     (let ym = getYearMonth env now;
          uploads = uploadsThisMonth env fid ym d
      in if length uploads > 0 then
           (case sortDesc (\<lambda>(i, r). js_or (Some (createdAt r)) 0) uploads of
              [] \<Rightarrow> (Inl (Error ''TypeError''), d)
            | (i, latest) # _ \<Rightarrow>
                let dateStr = (if createdAt latest \<noteq> 0
                               then Some (toLocaleDateString env (createdAt latest)) else None)
                in (Inl (Error (limitMessage dateStr)), d))
         else (Inr (), addDoc newId (newReading fid url tenant now ym) d))"

text \<open>The sort key \<open>r.approvedAt || r.createdAt || 0\<close>.\<close>

definition approvedSortKey :: "reading \<Rightarrow> int" where
  "approvedSortKey r = js_or (approvedAt r) (js_or (Some (createdAt r)) 0)"

text \<open>\<open>prevList\<close>: the approved readings of the flat, without the reading being approved.\<close>

definition prevList :: "string \<Rightarrow> string \<Rightarrow> db \<Rightarrow> (string \<times> reading) list" where
  "prevList readingId fid d =
     filter (\<lambda>(i, r). i \<noteq> readingId)
       (filter (\<lambda>(i, r). flatId r = fid \<and> status r = Approved) (readings d))"

text \<open>\<open>prev\<close>: the first element of the sorted list, \<open>undefined\<close> when the list is empty.\<close>

definition prev :: "string \<Rightarrow> string \<Rightarrow> db \<Rightarrow> (string \<times> reading) option" where
  "prev readingId fid d =
     (case sortDesc (\<lambda>(i, r). approvedSortKey r) (prevList readingId fid d) of
        [] \<Rightarrow> None
      | x # _ \<Rightarrow> Some x)"

definition finalPreviousReading :: "string \<Rightarrow> string \<Rightarrow> db \<Rightarrow> rat" where
  "finalPreviousReading readingId fid d =
     (let previousReading1 =
            (case prev readingId fid d of
               None \<Rightarrow> None
             | Some (i, p) \<Rightarrow> nullish (correctedReading p) (ocrReading p));
          previousReading2 =
            (case previousReading1 of
               None \<Rightarrow> (case getFlatByFlatId fid d of None \<Rightarrow> None | Some fl \<Rightarrow> initialReading fl)
             | Some v \<Rightarrow> Some v)
      in case previousReading2 of None \<Rightarrow> 0 | Some v \<Rightarrow> v)"

text \<open>\<open>approveReading\<close>; \<open>now\<close> is the value of \<open>Date.now()\<close> read for \<open>approvedAt\<close>.\<close>

definition approveReading :: "string \<Rightarrow> rat \<Rightarrow> int \<Rightarrow> db \<Rightarrow> (error + unit) \<times> db" where
  "approveReading readingId corrected now d =
     (case getDoc readingId d of
        None \<Rightarrow> (Inl (Error ''Reading not found''), d)
      | Some rd \<Rightarrow>
          let tariff = getGlobalTariff d;
              minPrice = getMinimumPrice d;
              factor = getUnitFactor d;
              previous = finalPreviousReading readingId (flatId rd) d;
              rawUnits = corrected - previous;
              units = (if rawUnits > 0 then rawUnits else 0);
              totalKg = units * factor;
              energyAmount = totalKg * tariff;
              total = energyAmount + minPrice
          in updateDoc readingId
               (\<lambda>r. r\<lparr>correctedReading := Some corrected,
                       previousReading := Some previous,
                       unitsUsed := Some units,
                       amount := Some total,
                       status := Approved,
                       approvedAt := Some now,
                       tariffAtApproval := Some tariff,
                       unitFactorAtApproval := Some factor\<rparr>) d)"

definition rejectReading :: "string \<Rightarrow> string option \<Rightarrow> db \<Rightarrow> (error + unit) \<times> db" where
  "rejectReading readingId reason d =
     updateDoc readingId (\<lambda>r. r\<lparr>status := Rejected, rejectionReason := reason\<rparr>) d"

definition reopenReading :: "string \<Rightarrow> string option \<Rightarrow> db \<Rightarrow> (error + unit) \<times> db" where
  "reopenReading readingId reason d =
     updateDoc readingId
       (\<lambda>r. r\<lparr>status := Pending,
               rejectionReason := None,
               reopenReason := reason,
               unitsUsed := None,
               amount := None,
               approvedAt := None,
               tariffAtApproval := None\<rparr>) d"

section \<open>Display of the grand total (components/ReadingCard.tsx)\<close>

definition calculateGrandTotal :: "reading \<Rightarrow> rat" where
  "calculateGrandTotal r =
     (if status r \<noteq> Approved then (case amount r of None \<Rightarrow> 0 | Some a \<Rightarrow> a)
      else
        let prv = (case previousReading r of None \<Rightarrow> 0 | Some v \<Rightarrow> v);
            current = (case nullish (correctedReading r) (ocrReading r) of None \<Rightarrow> 0 | Some v \<Rightarrow> v);
            units = (case unitsUsed r of None \<Rightarrow> max 0 (current - prv) | Some u \<Rightarrow> u);
            tariffPerKg = (case tariffAtApproval r of None \<Rightarrow> 70 | Some t \<Rightarrow> t);
            factor = (case unitFactorAtApproval r of None \<Rightarrow> 23 / 10 | Some u \<Rightarrow> u);
            minimumCharge = 25;
            kgConsumed = units;
            totalKg = kgConsumed * factor;
            energyAmount = totalKg * tariffPerKg
        in energyAmount + minimumCharge)"

section \<open>The effect of an approval, stated once\<close>

text \<open>The document that \<open>approveReading\<close> leaves behind for a reading \<open>rd\<close> found in
  the database \<open>d\<close>.\<close>

definition approvedFields :: "string \<Rightarrow> rat \<Rightarrow> int \<Rightarrow> db \<Rightarrow> reading \<Rightarrow> reading" where
  "approvedFields readingId corrected now d rd =
     (let previous = finalPreviousReading readingId (flatId rd) d;
          units = max (corrected - previous) 0
      in rd\<lparr>correctedReading := Some corrected,
             previousReading := Some previous,
             unitsUsed := Some units,
             amount := Some (units * getUnitFactor d * getGlobalTariff d + getMinimumPrice d),
             status := Approved,
             approvedAt := Some now,
             tariffAtApproval := Some (getGlobalTariff d),
             unitFactorAtApproval := Some (getUnitFactor d)\<rparr>)"

section \<open>Example data\<close>

text \<open>The UTC calendar and the en-US date format, on February and March 2025
  (timestamps from 1738368000000 up to 1743465600000). The readings below carry their
  year-month bucket, so the calendar is asked for dates of these two months only.\<close>

definition utcEnv :: jsenv where
  "utcEnv =
     \<lparr>getFullYear = (\<lambda>t. 2025),
      getMonth = (\<lambda>t. if t < 1740787200000 then 1 else 2),
      toLocaleDateString =
        (\<lambda>t. if t < 1740787200000
             then ''2/'' @ showInt ((t - 1738368000000) div 86400000 + 1) @ ''/2025''
             else ''3/'' @ showInt ((t - 1740787200000) div 86400000 + 1) @ ''/2025'')\<rparr>"

definition rejectedFeb :: reading where
  "rejectedFeb =
     \<lparr>flatId = ''A-101'', imageUrl = ''data:image/jpeg;base64,AAAA'', ocrReading = None,
      ocrConfidence = None, tenantReading = None, correctedReading = None,
      previousReading = None, unitsUsed = None, amount = None, status = Rejected,
      createdAt = 1738500000000, approvedAt = None, yearMonth = Some ''2025-02'',
      tariffAtApproval = None, unitFactorAtApproval = None,
      rejectionReason = Some ''blurred photo'', reopenReason = None\<rparr>"

definition approvedJan :: reading where
  "approvedJan =
     \<lparr>flatId = ''A-101'', imageUrl = ''data:image/jpeg;base64,DDDD'', ocrReading = None,
      ocrConfidence = None, tenantReading = None, correctedReading = Some 40,
      previousReading = Some 12, unitsUsed = Some 28, amount = Some 733, status = Approved,
      createdAt = 1736100000000, approvedAt = Some 1736200000000, yearMonth = Some ''2025-01'',
      tariffAtApproval = Some (15 / 2), unitFactorAtApproval = Some (23 / 10),
      rejectionReason = None, reopenReason = None\<rparr>"

definition approvedFeb :: reading where
  "approvedFeb =
     \<lparr>flatId = ''A-101'', imageUrl = ''data:image/jpeg;base64,BBBB'', ocrReading = None,
      ocrConfidence = None, tenantReading = Some 101, correctedReading = Some 100,
      previousReading = Some 40, unitsUsed = Some 60, amount = Some 1285, status = Approved,
      createdAt = 1738750000000, approvedAt = Some 1738800000000, yearMonth = Some ''2025-02'',
      tariffAtApproval = Some (15 / 2), unitFactorAtApproval = Some (23 / 10),
      rejectionReason = None, reopenReason = None\<rparr>"

definition pendingMar :: reading where
  "pendingMar = newReading ''A-101'' ''data:image/jpeg;base64,CCCC'' (Some 151) 1741000000000 ''2025-03''"

definition flatA101 :: flat where
  "flatA101 =
     \<lparr>f_id = ''A-101'', f_flatId = ''A-101'', f_tenantName = None, f_tariffPerUnit = 15 / 2,
      f_userId = ''u1'', initialReading = Some 12\<rparr>"

definition exampleDb :: db where
  "exampleDb =
     \<lparr>readings = [(''r0'', rejectedFeb), (''r1'', approvedFeb), (''r2'', pendingMar),
                  (''r3'', approvedJan)],
      flats = [flatA101],
      settings = Some \<lparr>tariffPerUnit = Some (JNumber (15 / 2)),
                       minimumPrice = Some (JNumber 250),
                       unitFactor = Some (JNumber (23 / 10))\<rparr>\<rparr>"

text \<open>The same readings in a system whose settings document was never written.\<close>

definition unconfiguredDb :: db where
  "unconfiguredDb = exampleDb\<lparr>settings := None\<rparr>"

section \<open>Changes of the global settings\<close>

text \<open>A change of one global setting by an admin, and its effect through the update
  functions of services/settings.ts.\<close>

datatype settingsChange = SetTariff rat | SetMinimumPrice rat | SetUnitFactor rat

fun applyChange :: "settingsChange \<Rightarrow> db \<Rightarrow> db" where
  "applyChange (SetTariff t) d = updateGlobalTariff t d"
| "applyChange (SetMinimumPrice m) d = updateMinimumPrice m d"
| "applyChange (SetUnitFactor u) d = updateUnitFactor u d"

text \<open>The first upload of a flat: no approved reading yet; and the same for a flat
  without document in the \<open>flats\<close> collection.\<close>

definition firstUploadDb :: db where
  "firstUploadDb = exampleDb\<lparr>readings := [(''r2'', pendingMar)]\<rparr>"

definition noFlatDb :: db where
  "noFlatDb = firstUploadDb\<lparr>flats := []\<rparr>"

section \<open>Operations and reachable states\<close>

text \<open>The operations on readings, with the values the code takes from its environment
  (the generated id and the clock) as arguments.\<close>

datatype operation =
    CreateReading string int string string "rat option"
  | ApproveReading string rat int
  | RejectReading string "string option"
  | ReopenReading string "string option"

fun perform :: "jsenv \<Rightarrow> operation \<Rightarrow> db \<Rightarrow> (error + unit) \<times> db" where
  "perform env (CreateReading newId now fid url tenant) d =
     createReadingFromImage env newId now fid url tenant d"
| "perform env (ApproveReading readingId corrected now) d = approveReading readingId corrected now d"
| "perform env (RejectReading readingId reason) d = rejectReading readingId reason d"
| "perform env (ReopenReading readingId reason) d = reopenReading readingId reason d"

text \<open>The id that \<open>addDoc\<close> generates is not the id of a stored document.\<close>

fun freshId :: "operation \<Rightarrow> db \<Rightarrow> bool" where
  "freshId (CreateReading newId now fid url tenant) d = (getDoc newId d = None)"
| "freshId _ d = True"


text \<open>The states reached from \<open>d0\<close> by operations that run one after the other,
  each finished before the next begins, and each allowed in the state it meets; a failing
  operation leaves the state it returns, which is the state before.\<close>

inductive reachableBy :: "(operation \<Rightarrow> db \<Rightarrow> bool) \<Rightarrow> jsenv \<Rightarrow> db \<Rightarrow> db \<Rightarrow> bool"
  for allowed :: "operation \<Rightarrow> db \<Rightarrow> bool" and env :: jsenv and d0 :: db where
  reachable_start: "reachableBy allowed env d0 d0"
| reachable_step:
    "reachableBy allowed env d0 d \<Longrightarrow> allowed op d \<Longrightarrow> reachableBy allowed env d0 (snd (perform env op d))"











text \<open>The readings of the example under settings that differ from every default.\<close>

definition tunedDb :: db where
  "tunedDb =
     exampleDb\<lparr>settings := Some \<lparr>tariffPerUnit = Some (JNumber 8),
                                  minimumPrice = Some (JNumber 300),
                                  unitFactor = Some (JNumber (5 / 2))\<rparr>\<rparr>"

text \<open>The example in a system where an admin has set the tariff and nothing else.\<close>

definition tariffOnlyDb :: db where
  "tariffOnlyDb = updateGlobalTariff 8 unconfiguredDb"

text \<open>An approved reading of an old release: its value is the OCR value, and it carries
  neither a corrected value nor an approval timestamp nor a year-month bucket.\<close>

definition legacyOcrFeb :: reading where
  "legacyOcrFeb =
     \<lparr>flatId = ''A-101'', imageUrl = ''data:image/jpeg;base64,FFFF'', ocrReading = Some 77,
      ocrConfidence = Some (9 / 10), tenantReading = None, correctedReading = None,
      previousReading = Some 40, unitsUsed = Some 37, amount = Some 2590, status = Approved,
      createdAt = 1738900000000, approvedAt = None, yearMonth = None,
      tariffAtApproval = None, unitFactorAtApproval = None,
      rejectionReason = None, reopenReason = None\<rparr>"

definition legacyDb :: db where
  "legacyDb = exampleDb\<lparr>readings := [(''r0'', legacyOcrFeb), (''r1'', approvedFeb), (''r2'', pendingMar)]\<rparr>"

text \<open>The reading of January approved in the same millisecond as the reading of February,
  and stored under an id that a query returns first.\<close>

definition approvedJanLate :: reading where
  "approvedJanLate = approvedJan\<lparr>approvedAt := Some 1738800000000\<rparr>"

definition tieDb :: db where
  "tieDb = exampleDb\<lparr>readings := [(''r0'', approvedJanLate), (''r1'', approvedFeb), (''r2'', pendingMar)]\<rparr>"

text \<open>A pending upload of March 2025 written by an old release, without year-month
  bucket; alone with the legacy reading of February, and the February reading alone.\<close>

definition legacyPendingMar :: reading where
  "legacyPendingMar =
     \<lparr>flatId = ''A-101'', imageUrl = ''data:image/jpeg;base64,GGGG'', ocrReading = Some 131,
      ocrConfidence = Some (4 / 5), tenantReading = None, correctedReading = None,
      previousReading = None, unitsUsed = None, amount = None, status = Pending,
      createdAt = 1740900000000, approvedAt = None, yearMonth = None,
      tariffAtApproval = None, unitFactorAtApproval = None,
      rejectionReason = None, reopenReason = None\<rparr>"

definition legacyGateDb :: db where
  "legacyGateDb = exampleDb\<lparr>readings := [(''r0'', legacyOcrFeb), (''r5'', legacyPendingMar)]\<rparr>"

definition legacyFebDb :: db where
  "legacyFebDb = exampleDb\<lparr>readings := [(''r0'', legacyOcrFeb)]\<rparr>"

section \<open>Overlapping uploads\<close>

text \<open>
  \<open>createReadingFromImage\<close> awaits the query of the existing readings and, later, the
  write of the new document; no transaction joins the two. \<open>uploadCheck\<close> is the first
  part, up to the decision (the error thrown, or the year-month to be written), and
  \<open>uploadWrite\<close> is the second part, the call of \<open>addDoc\<close>.
\<close>

definition uploadCheck :: "jsenv \<Rightarrow> int \<Rightarrow> string \<Rightarrow> db \<Rightarrow> error + string" where
  "uploadCheck env now fid d =
     (let ym = getYearMonth env now;
          uploads = uploadsThisMonth env fid ym d
      in if length uploads > 0 then
           (case sortDesc (\<lambda>(i, r). js_or (Some (createdAt r)) 0) uploads of
              [] \<Rightarrow> Inl (Error ''TypeError'')
            | (i, latest) # _ \<Rightarrow>
                let dateStr = (if createdAt latest \<noteq> 0
                               then Some (toLocaleDateString env (createdAt latest)) else None)
                in Inl (Error (limitMessage dateStr)))
         else Inr ym)"

definition uploadWrite :: "string \<Rightarrow> int \<Rightarrow> string \<Rightarrow> string \<Rightarrow> rat option \<Rightarrow> string \<Rightarrow> db \<Rightarrow> db" where
  "uploadWrite newId now fid url tenant ym d = addDoc newId (newReading fid url tenant now ym) d"

text \<open>An upload that has passed its check and has not written yet, with the id that
  \<open>addDoc\<close> will generate for it.\<close>

datatype inflight = Inflight string int string string "rat option" string

fun inflightId :: "inflight \<Rightarrow> string" where
  "inflightId (Inflight newId now fid url tenant ym) = newId"

fun finish :: "inflight \<Rightarrow> db \<Rightarrow> db" where
  "finish (Inflight newId now fid url tenant ym) d = uploadWrite newId now fid url tenant ym d"

text \<open>
  The states reached from \<open>d0\<close> when uploads may overlap: besides whole operations, an
  upload may pass its check, stay in flight while other steps happen, and write later.
  Approvals, rejections and reopenings are taken whole: what they write to the status of a
  reading does not depend on what they read.
\<close>

inductive reachableOverlapping :: "jsenv \<Rightarrow> db \<Rightarrow> db \<Rightarrow> inflight list \<Rightarrow> bool"
  for env :: jsenv and d0 :: db where
  overlapping_start: "reachableOverlapping env d0 d0 []"
| overlapping_whole:
    "reachableOverlapping env d0 d us \<Longrightarrow> freshId op d
     \<Longrightarrow> reachableOverlapping env d0 (snd (perform env op d)) us"
| overlapping_check:
    "reachableOverlapping env d0 d us \<Longrightarrow> uploadCheck env now fid d = Inr ym
     \<Longrightarrow> reachableOverlapping env d0 d (Inflight newId now fid url tenant ym # us)"
| overlapping_write:
    "reachableOverlapping env d0 d us \<Longrightarrow> u \<in> set us \<Longrightarrow> getDoc (inflightId u) d = None
     \<Longrightarrow> reachableOverlapping env d0 (finish u d) (remove1 u us)"




section \<open>Lemmas on the document store\<close>

lemma map_of_update_doc:
  "map_of (map (\<lambda>(i, r). if i = k then (i, f r) else (i, r)) xs) j =
     (if j = k then map_option f (map_of xs j) else map_of xs j)"
  by (induction xs) auto

lemma updateDoc_found:
  assumes "getDoc k d = Some rd"
  shows "updateDoc k f d =
           (Inr (), d\<lparr>readings := map (\<lambda>(i, r). if i = k then (i, f r) else (i, r)) (readings d)\<rparr>)"
  using assms by (simp add: updateDoc_def)

lemma updateDoc_missing: "getDoc k d = None \<Longrightarrow> updateDoc k f d = (Inl FirestoreNotFound, d)"
  by (simp add: updateDoc_def)

lemma getDoc_updateDoc:
  assumes "getDoc k d = Some rd"
  shows "getDoc j (snd (updateDoc k f d)) = (if j = k then Some (f rd) else getDoc j d)"
  using assms by (simp add: updateDoc_def getDoc_def map_of_update_doc)

section \<open>Lemmas on approval\<close>

lemma approveReading_eq:
  assumes "getDoc readingId d = Some rd"
  shows "approveReading readingId corrected now d =
           updateDoc readingId
             (\<lambda>r. r\<lparr>correctedReading := Some corrected,
                     previousReading := Some (finalPreviousReading readingId (flatId rd) d),
                     unitsUsed := Some (max (corrected - finalPreviousReading readingId (flatId rd) d) 0),
                     amount := Some (max (corrected - finalPreviousReading readingId (flatId rd) d) 0
                                       * getUnitFactor d * getGlobalTariff d + getMinimumPrice d),
                     status := Approved,
                     approvedAt := Some now,
                     tariffAtApproval := Some (getGlobalTariff d),
                     unitFactorAtApproval := Some (getUnitFactor d)\<rparr>) d"
proof -
  have m: "(if 0 < x then x else 0) = max x 0" for x :: rat
    by (simp add: max_def)
  show ?thesis
    using assms unfolding approveReading_def Let_def m by simp
qed

lemma approveReading_ok:
  assumes "getDoc readingId d = Some rd"
  shows "fst (approveReading readingId corrected now d) = Inr ()"
  unfolding approveReading_eq [OF assms] using assms by (simp add: updateDoc_def)

lemma approveReading_doc:
  assumes "getDoc readingId d = Some rd"
  shows "getDoc readingId (snd (approveReading readingId corrected now d)) =
           Some (approvedFields readingId corrected now d rd)"
  unfolding approveReading_eq [OF assms] getDoc_updateDoc [OF assms]
  by (simp add: approvedFields_def Let_def)

lemma approveReading_missing:
  assumes "getDoc readingId d = None"
  shows "approveReading readingId corrected now d = (Inl (Error ''Reading not found''), d)"
  using assms by (simp add: approveReading_def)

section \<open>Lemmas on the example data\<close>

lemma exampleDb_getDoc:
  "getDoc ''r0'' exampleDb = Some rejectedFeb"
  "getDoc ''r1'' exampleDb = Some approvedFeb"
  "getDoc ''r2'' exampleDb = Some pendingMar"
  "getDoc ''r9'' exampleDb = None"
  "getDoc ''r3'' exampleDb = Some approvedJan"
  by (simp_all add: getDoc_def exampleDb_def)

lemma exampleDb_settings:
  "getGlobalTariff exampleDb = 15 / 2"
  "getMinimumPrice exampleDb = 250"
  "getUnitFactor exampleDb = 23 / 10"
  by (simp_all add: getGlobalTariff_def getMinimumPrice_def getUnitFactor_def exampleDb_def)

lemma exampleDb_previous: "finalPreviousReading ''r2'' ''A-101'' exampleDb = 100"
  by (simp add: finalPreviousReading_def prev_def prevList_def sortDesc_def exampleDb_def
      approvedFeb_def approvedJan_def rejectedFeb_def pendingMar_def newReading_def nullish_def
      approvedSortKey_def js_or_def)

lemma pendingMar_flatId: "flatId pendingMar = ''A-101''"
  by (simp add: pendingMar_def newReading_def)

section \<open>The bill amount\<close>

lemma unconfiguredDb_getDoc:
  "getDoc ''r2'' unconfiguredDb = Some pendingMar"
  by (simp add: getDoc_def unconfiguredDb_def exampleDb_def)

text \<open>
  Claim C3. An approval with corrected reading \<open>c\<close> and previous reading \<open>p\<close> persists
  \<open>unitsUsed = max (c - p) 0\<close>: the units are never negative, and when \<open>c < p\<close> they are 0
  and the amount is the minimum price.
\<close>

theorem approveReading_unitsUsed:
  assumes "getDoc readingId d = Some rd"
  shows "\<exists>r' p u. getDoc readingId (snd (approveReading readingId c now d)) = Some r'
           \<and> previousReading r' = Some p
           \<and> p = finalPreviousReading readingId (flatId rd) d
           \<and> unitsUsed r' = Some u
           \<and> u = max (c - p) 0
           \<and> 0 \<le> u
           \<and> (c < p \<longrightarrow> u = 0 \<and> amount r' = Some (getMinimumPrice d))"
proof -
  let ?r = "approvedFields readingId c now d rd"
  let ?p = "finalPreviousReading readingId (flatId rd) d"
  have "getDoc readingId (snd (approveReading readingId c now d)) = Some ?r"
    by (rule approveReading_doc [OF assms])
  moreover have "previousReading ?r = Some ?p"
    by (simp add: approvedFields_def Let_def)
  moreover have "unitsUsed ?r = Some (max (c - ?p) 0)"
    by (simp add: approvedFields_def Let_def)
  moreover have "c < ?p \<longrightarrow> max (c - ?p) 0 = 0 \<and> amount ?r = Some (getMinimumPrice d)"
    by (simp add: approvedFields_def Let_def max_def)
  moreover have "0 \<le> max (c - ?p) 0"
    by simp
  ultimately show ?thesis by blast
qed

theorem approveReading_unitsUsed_witness:
  "getDoc ''r2'' exampleDb = Some pendingMar
   \<and> (80::rat) < finalPreviousReading ''r2'' (flatId pendingMar) exampleDb
   \<and> unitsUsed (the (getDoc ''r2'' (snd (approveReading ''r2'' 80 1741100000000 exampleDb)))) = Some 0
   \<and> amount (the (getDoc ''r2'' (snd (approveReading ''r2'' 80 1741100000000 exampleDb)))) = Some 250"
proof -
  have lt: "(80::rat) < finalPreviousReading ''r2'' (flatId pendingMar) exampleDb"
    by (simp add: exampleDb_previous pendingMar_flatId)
  obtain r' p u where
    r': "getDoc ''r2'' (snd (approveReading ''r2'' 80 1741100000000 exampleDb)) = Some r'"
    and p: "p = finalPreviousReading ''r2'' (flatId pendingMar) exampleDb"
    and u: "unitsUsed r' = Some u"
    and imp: "80 < p \<longrightarrow> u = 0 \<and> amount r' = Some (getMinimumPrice exampleDb)"
    using approveReading_unitsUsed [OF exampleDb_getDoc(3), of 80 1741100000000] by blast
  from imp lt p have "u = 0" "amount r' = Some 250"
    by (simp_all add: exampleDb_settings)
  with r' u lt exampleDb_getDoc(3) show ?thesis by simp
qed

text \<open>
  Claim C9. \<open>approveReading\<close> fails exactly when the reading does not exist, and then
  the database is left as it was. No other precondition is checked: an existing reading
  is approved whatever its status.
\<close>

theorem approveReading_error_iff:
  "((\<exists>e. fst (approveReading readingId c now d) = Inl e) \<longleftrightarrow> getDoc readingId d = None)
   \<and> (getDoc readingId d = None \<longrightarrow>
        approveReading readingId c now d = (Inl (Error ''Reading not found''), d))
   \<and> (\<forall>rd. getDoc readingId d = Some rd \<longrightarrow>
        fst (approveReading readingId c now d) = Inr ()
        \<and> (\<exists>r'. getDoc readingId (snd (approveReading readingId c now d)) = Some r'
                \<and> status r' = Approved \<and> correctedReading r' = Some c))"
proof (cases "getDoc readingId d")
  case None
  then show ?thesis
    by (simp add: approveReading_missing)
next
  case (Some rd)
  have "status (approvedFields readingId c now d rd) = Approved"
    "correctedReading (approvedFields readingId c now d rd) = Some c"
    by (simp_all add: approvedFields_def Let_def)
  with Some show ?thesis
    by (simp add: approveReading_ok [OF Some] approveReading_doc [OF Some])
qed

theorem approveReading_error_iff_witness:
  "getDoc ''r9'' exampleDb = None
   \<and> approveReading ''r9'' 150 1741100000000 exampleDb = (Inl (Error ''Reading not found''), exampleDb)
   \<and> getDoc ''r0'' exampleDb = Some rejectedFeb \<and> status rejectedFeb = Rejected
   \<and> fst (approveReading ''r0'' 150 1741100000000 exampleDb) = Inr ()
   \<and> getDoc ''r1'' exampleDb = Some approvedFeb \<and> status approvedFeb = Approved
   \<and> fst (approveReading ''r1'' 150 1741100000000 exampleDb) = Inr ()
   \<and> getDoc ''r2'' exampleDb = Some pendingMar \<and> status pendingMar = Pending
   \<and> fst (approveReading ''r2'' 150 1741100000000 exampleDb) = Inr ()"
  using approveReading_error_iff [of "''r9''" 150 1741100000000 exampleDb]
    approveReading_error_iff [of "''r0''" 150 1741100000000 exampleDb]
    approveReading_error_iff [of "''r1''" 150 1741100000000 exampleDb]
    approveReading_error_iff [of "''r2''" 150 1741100000000 exampleDb]
  by (simp add: exampleDb_getDoc rejectedFeb_def approvedFeb_def pendingMar_def newReading_def)

text \<open>
  Claim C10. When the settings document is absent, or its \<open>tariffPerUnit\<close> is not a
  number, \<open>getGlobalTariff\<close> is 0, whereas an absent document gives the minimum price 250
  and the unit factor 2.3. So an approval in a system without settings document stores the
  amount 250, whatever the units.
\<close>

theorem getGlobalTariff_unconfigured:
  "(settings d = None \<or> (\<exists>data. settings d = Some data \<and> (\<forall>n. tariffPerUnit data \<noteq> Some (JNumber n)))
      \<longrightarrow> getGlobalTariff d = 0)
   \<and> (settings d = None \<longrightarrow> getMinimumPrice d = 250 \<and> getUnitFactor d = 23 / 10)
   \<and> (settings d = None \<and> getDoc readingId d = Some rd \<longrightarrow>
        (\<exists>r'. getDoc readingId (snd (approveReading readingId c now d)) = Some r'
              \<and> amount r' = Some 250))"
proof (intro conjI impI)
  assume "settings d = None \<or> (\<exists>data. settings d = Some data \<and> (\<forall>n. tariffPerUnit data \<noteq> Some (JNumber n)))"
  then show "getGlobalTariff d = 0"
    by (auto simp: getGlobalTariff_def split: option.splits jsval.splits)
next
  assume "settings d = None"
  then show "getMinimumPrice d = 250" "getUnitFactor d = 23 / 10"
    by (simp_all add: getMinimumPrice_def getUnitFactor_def)
next
  assume a: "settings d = None \<and> getDoc readingId d = Some rd"
  then have "getGlobalTariff d = 0" "getMinimumPrice d = 250"
    by (simp_all add: getGlobalTariff_def getMinimumPrice_def)
  then have "amount (approvedFields readingId c now d rd) = Some 250"
    by (simp add: approvedFields_def Let_def)
  with a show "\<exists>r'. getDoc readingId (snd (approveReading readingId c now d)) = Some r'
              \<and> amount r' = Some 250"
    by (simp add: approveReading_doc)
qed

theorem getGlobalTariff_unconfigured_witness:
  "settings unconfiguredDb = None
   \<and> getGlobalTariff unconfiguredDb = 0
   \<and> getMinimumPrice unconfiguredDb = 250
   \<and> getUnitFactor unconfiguredDb = 23 / 10
   \<and> getDoc ''r2'' unconfiguredDb = Some pendingMar
   \<and> amount (the (getDoc ''r2'' (snd (approveReading ''r2'' 150 1741100000000 unconfiguredDb)))) = Some 250
   \<and> getGlobalTariff (exampleDb\<lparr>settings := Some \<lparr>tariffPerUnit = Some (JString ''7.5''),
         minimumPrice = None, unitFactor = None\<rparr>\<rparr>) = 0"
proof -
  have s: "settings unconfiguredDb = None"
    by (simp add: unconfiguredDb_def)
  let ?d = "exampleDb\<lparr>settings := Some \<lparr>tariffPerUnit = Some (JString ''7.5''),
         minimumPrice = None, unitFactor = None\<rparr>\<rparr>"
  have t: "\<exists>data. settings ?d = Some data \<and> (\<forall>n. tariffPerUnit data \<noteq> Some (JNumber n))"
    by simp
  from getGlobalTariff_unconfigured [of unconfiguredDb "''r2''" pendingMar 150 1741100000000]
    getGlobalTariff_unconfigured [of ?d "''r2''" pendingMar 150 1741100000000] s t
    unconfiguredDb_getDoc
  show ?thesis
    by auto
qed

section \<open>Frozen settings, reopening and the displayed total\<close>

lemma readings_mergeSettings: "readings (mergeSettings upd d) = readings d"
  by (simp add: mergeSettings_def)

lemma readings_applyChange: "readings (applyChange ch d) = readings d"
  by (cases ch)
    (simp_all add: updateGlobalTariff_def updateMinimumPrice_def updateUnitFactor_def
      readings_mergeSettings)

lemma readings_applyChanges: "readings (fold applyChange chs d) = readings d"
  by (induction chs arbitrary: d) (simp_all add: readings_applyChange)

lemma getGlobalTariff_update: "getGlobalTariff (updateGlobalTariff t d) = t"
  by (simp add: getGlobalTariff_def updateGlobalTariff_def mergeSettings_def)

lemma reopenReading_doc:
  assumes "getDoc readingId d = Some rd"
  shows "getDoc readingId (snd (reopenReading readingId reason d)) =
           Some (rd\<lparr>status := Pending, rejectionReason := None, reopenReason := reason,
                    unitsUsed := None, amount := None, approvedAt := None,
                    tariffAtApproval := None\<rparr>)"
  unfolding reopenReading_def getDoc_updateDoc [OF assms] by simp

text \<open>
  Claim C7. Reopening the approved reading \<open>r1\<close> of the example sets its status to pending,
  records the reason, clears the rejection reason, the units, the amount, the approval time
  and the frozen tariff, and keeps image, tenant value and creation time; the frozen unit
  factor, however, is still 2.3 afterwards: \<open>reopenReading\<close> does not clear
  \<open>unitFactorAtApproval\<close>.
\<close>

theorem reopenReading_keeps_unitFactor:
  "getDoc ''r1'' exampleDb = Some approvedFeb
   \<and> status approvedFeb = Approved
   \<and> getDoc ''r1'' (snd (reopenReading ''r1'' (Some ''wrong digit'') exampleDb)) =
       Some (approvedFeb\<lparr>status := Pending, rejectionReason := None,
               reopenReason := Some ''wrong digit'', unitsUsed := None, amount := None,
               approvedAt := None, tariffAtApproval := None\<rparr>)
   \<and> tariffAtApproval (the (getDoc ''r1'' (snd (reopenReading ''r1'' (Some ''wrong digit'') exampleDb)))) = None
   \<and> unitFactorAtApproval (the (getDoc ''r1'' (snd (reopenReading ''r1'' (Some ''wrong digit'') exampleDb))))
       = Some (23 / 10)"
  by (simp add: reopenReading_doc [OF exampleDb_getDoc(2)] exampleDb_getDoc)
    (simp add: approvedFeb_def)

lemma calculateGrandTotal_approved:
  assumes "status r = Approved" "unitsUsed r = Some u" "tariffAtApproval r = Some t"
    "unitFactorAtApproval r = Some f"
  shows "calculateGrandTotal r = u * f * t + 25"
  using assms by (simp add: calculateGrandTotal_def Let_def)

text \<open>
  Claim C8. For the reading \<open>r2\<close> of the example, approved with the corrected value 150
  under the settings tariff 7.5, unit factor 2.3 and minimum price 250, the stored amount is
  1112.5, while \<open>calculateGrandTotal\<close> shows 887.5 for the same reading: the display adds
  the fixed minimum charge 25, not the minimum price of the settings.
\<close>

theorem calculateGrandTotal_differs_from_amount:
  "status (the (getDoc ''r2'' (snd (approveReading ''r2'' 150 1741100000000 exampleDb)))) = Approved
   \<and> tariffAtApproval (the (getDoc ''r2'' (snd (approveReading ''r2'' 150 1741100000000 exampleDb))))
       = Some (15 / 2)
   \<and> unitFactorAtApproval (the (getDoc ''r2'' (snd (approveReading ''r2'' 150 1741100000000 exampleDb))))
       = Some (23 / 10)
   \<and> amount (the (getDoc ''r2'' (snd (approveReading ''r2'' 150 1741100000000 exampleDb))))
       = Some (2225 / 2)
   \<and> calculateGrandTotal (the (getDoc ''r2'' (snd (approveReading ''r2'' 150 1741100000000 exampleDb))))
       = 1775 / 2"
proof -
  let ?r = "approvedFields ''r2'' 150 1741100000000 exampleDb pendingMar"
  have r: "getDoc ''r2'' (snd (approveReading ''r2'' 150 1741100000000 exampleDb)) = Some ?r"
    by (rule approveReading_doc [OF exampleDb_getDoc(3)])
  have f: "status ?r = Approved" "tariffAtApproval ?r = Some (15 / 2)"
    "unitFactorAtApproval ?r = Some (23 / 10)" "unitsUsed ?r = Some 50"
    "amount ?r = Some (2225 / 2)"
    by (simp_all add: approvedFields_def Let_def exampleDb_previous exampleDb_settings
        pendingMar_flatId)
  have "calculateGrandTotal ?r = 50 * (23 / 10) * (15 / 2) + 25"
    by (rule calculateGrandTotal_approved [OF f(1) f(4) f(2) f(3)])
  then have "calculateGrandTotal ?r = 1775 / 2"
    by simp
  with f show ?thesis
    unfolding r by simp
qed

section \<open>The previous reading\<close>

lemma sortDesc_head:
  assumes "xs \<noteq> []"
  shows "\<exists>x rest. sortDesc key xs = x # rest \<and> x \<in> set xs \<and> (\<forall>y\<in>set xs. key y \<le> key x)"
proof -
  let ?ys = "sort_key (\<lambda>x. - key x) xs"
  have "length ?ys = length xs"
    by simp
  with assms obtain x rest where ys: "?ys = x # rest"
    by (cases ?ys) auto
  have "set ?ys = set xs"
    by simp
  with ys have mem: "x \<in> set xs" and sub: "set xs = insert x (set rest)"
    by auto
  have "sorted (map (\<lambda>x. - key x) ?ys)"
    by (rule sorted_sort_key)
  with ys have "\<forall>y\<in>set rest. - key x \<le> - key y"
    by simp
  with sub have "\<forall>y\<in>set xs. key y \<le> key x"
    by auto
  with ys mem show ?thesis
    by (simp add: sortDesc_def)
qed

lemma set_prevList:
  "(i, r) \<in> set (prevList readingId fid d) \<longleftrightarrow>
     (i, r) \<in> set (readings d) \<and> flatId r = fid \<and> status r = Approved \<and> i \<noteq> readingId"
  by (auto simp: prevList_def)

lemma prev_None_iff: "prev readingId fid d = None \<longleftrightarrow> prevList readingId fid d = []"
proof
  assume "prev readingId fid d = None"
  then show "prevList readingId fid d = []"
    using sortDesc_head [of "prevList readingId fid d" "\<lambda>(i, r). approvedSortKey r"]
    by (cases "prevList readingId fid d = []") (auto simp: prev_def)
next
  assume "prevList readingId fid d = []"
  then show "prev readingId fid d = None"
    by (simp add: prev_def sortDesc_def)
qed

lemma prev_Some_max:
  assumes "prev readingId fid d = Some (i, p)"
  shows "(i, p) \<in> set (prevList readingId fid d)
         \<and> (\<forall>(j, q)\<in>set (prevList readingId fid d). approvedSortKey q \<le> approvedSortKey p)"
proof -
  from assms have ne: "prevList readingId fid d \<noteq> []"
    using prev_None_iff [of readingId fid d] by auto
  from sortDesc_head [OF ne, of "\<lambda>(i, r). approvedSortKey r"] assms
  show ?thesis
    by (auto simp: prev_def)
qed

lemma prev_unique_latest:
  assumes mem: "(i, p) \<in> set (prevList readingId fid d)"
    and latest: "\<forall>(j, q)\<in>set (prevList readingId fid d).
                   (j, q) \<noteq> (i, p) \<longrightarrow> approvedSortKey q < approvedSortKey p"
  shows "prev readingId fid d = Some (i, p)"
proof -
  from mem have "prevList readingId fid d \<noteq> []"
    by auto
  then have "prev readingId fid d \<noteq> None"
    by (simp add: prev_None_iff)
  then obtain j q where jq: "prev readingId fid d = Some (j, q)"
    by (cases "prev readingId fid d") auto
  from prev_Some_max [OF jq] mem have m: "(j, q) \<in> set (prevList readingId fid d)"
    and le: "approvedSortKey p \<le> approvedSortKey q"
    by auto
  have "(j, q) = (i, p)"
  proof (rule ccontr)
    assume "(j, q) \<noteq> (i, p)"
    with latest m have "approvedSortKey q < approvedSortKey p"
      by auto
    with le show False by simp
  qed
  with jq show ?thesis by simp
qed

lemma approvedSortKey_cases:
  "approvedAt r = Some t \<Longrightarrow> t \<noteq> 0 \<Longrightarrow> approvedSortKey r = t"
  "approvedAt r = None \<Longrightarrow> approvedSortKey r = createdAt r"
  by (simp_all add: approvedSortKey_def js_or_def)

lemma previousReading_approved:
  "previousReading (approvedFields readingId c now d rd) =
     Some (finalPreviousReading readingId (flatId rd) d)"
  by (simp add: approvedFields_def Let_def)

section \<open>The monthly upload gate\<close>

lemma set_uploadsThisMonth:
  "(i, r) \<in> set (uploadsThisMonth env fid ym d) \<longleftrightarrow>
     (i, r) \<in> set (readings d) \<and> flatId r = fid \<and> bucket env r = ym \<and> status r \<noteq> Rejected"
  by (auto simp: uploadsThisMonth_def)

lemma uploadsThisMonth_empty_iff:
  "uploadsThisMonth env fid ym d = [] \<longleftrightarrow>
     \<not> (\<exists>(i, r)\<in>set (readings d). flatId r = fid \<and> bucket env r = ym \<and> status r \<noteq> Rejected)"
  by (auto simp: uploadsThisMonth_def filter_empty_conv)

lemma js_or_createdAt: "js_or (Some t) 0 = t"
  by (simp add: js_or_def)

text \<open>The message thrown for the latest blocking upload \<open>r\<close>.\<close>

lemma createReadingFromImage_blocked:
  assumes "uploadsThisMonth env fid (getYearMonth env now) d \<noteq> []"
  shows "\<exists>i r. (i, r) \<in> set (uploadsThisMonth env fid (getYearMonth env now) d)
           \<and> (\<forall>(j, q)\<in>set (uploadsThisMonth env fid (getYearMonth env now) d). createdAt q \<le> createdAt r)
           \<and> createReadingFromImage env newId now fid url tenant d =
               (Inl (Error (limitMessage (if createdAt r \<noteq> 0
                                          then Some (toLocaleDateString env (createdAt r))
                                          else None))), d)"
proof -
  let ?ups = "uploadsThisMonth env fid (getYearMonth env now) d"
  let ?key = "\<lambda>(i, r). js_or (Some (createdAt r)) 0"
  from sortDesc_head [OF assms, of ?key]
  obtain x rest where s: "sortDesc ?key ?ups = x # rest" and m: "x \<in> set ?ups"
    and mx: "\<forall>y\<in>set ?ups. ?key y \<le> ?key x"
    by blast
  obtain i r where x: "x = (i, r)"
    by (cases x)
  from mx have "\<forall>(j, q)\<in>set ?ups. createdAt q \<le> createdAt r"
    by (auto simp: x js_or_createdAt)
  moreover have "createReadingFromImage env newId now fid url tenant d =
               (Inl (Error (limitMessage (if createdAt r \<noteq> 0
                                          then Some (toLocaleDateString env (createdAt r))
                                          else None))), d)"
    using assms s by (simp add: createReadingFromImage_def Let_def x)
  ultimately show ?thesis
    using m x by blast
qed

lemma createReadingFromImage_free:
  assumes "uploadsThisMonth env fid (getYearMonth env now) d = []"
  shows "createReadingFromImage env newId now fid url tenant d =
           (Inr (), addDoc newId (newReading fid url tenant now (getYearMonth env now)) d)"
  using assms by (simp add: createReadingFromImage_def Let_def)

text \<open>What \<open>createReadingFromImage\<close> does, relative to the bucket of each reading.\<close>

lemma createReadingFromImage_gate_behaviour:
  "((\<exists>e. fst (createReadingFromImage env newId now fid url tenant d) = Inl e) \<longleftrightarrow>
      (\<exists>(i, r)\<in>set (readings d).
          flatId r = fid \<and> bucket env r = getYearMonth env now \<and> status r \<noteq> Rejected))
   \<and> ((\<exists>(i, r)\<in>set (readings d).
          flatId r = fid \<and> bucket env r = getYearMonth env now \<and> status r \<noteq> Rejected) \<longrightarrow>
        snd (createReadingFromImage env newId now fid url tenant d) = d
        \<and> (\<exists>(i, r)\<in>set (readings d).
              flatId r = fid \<and> bucket env r = getYearMonth env now \<and> status r \<noteq> Rejected
              \<and> (\<forall>(j, q)\<in>set (readings d).
                    flatId q = fid \<and> bucket env q = getYearMonth env now \<and> status q \<noteq> Rejected
                    \<longrightarrow> createdAt q \<le> createdAt r)
              \<and> fst (createReadingFromImage env newId now fid url tenant d) =
                  Inl (Error
                    (if createdAt r \<noteq> 0 \<and> toLocaleDateString env (createdAt r) \<noteq> []
                     then ''Upload limit reached. You already have a pending/approved upload on ''
                            @ toLocaleDateString env (createdAt r) @ ''. Try again next month.''
                     else ''Upload limit reached for this calendar month (pending/approved reading exists).''))))
   \<and> (\<not> (\<exists>(i, r)\<in>set (readings d).
          flatId r = fid \<and> bucket env r = getYearMonth env now \<and> status r \<noteq> Rejected) \<longrightarrow>
        fst (createReadingFromImage env newId now fid url tenant d) = Inr ()
        \<and> readings (snd (createReadingFromImage env newId now fid url tenant d)) =
            insort_key fst (newId, newReading fid url tenant now (getYearMonth env now)) (readings d)
        \<and> set (readings (snd (createReadingFromImage env newId now fid url tenant d))) =
            insert (newId, newReading fid url tenant now (getYearMonth env now)) (set (readings d))
        \<and> flats (snd (createReadingFromImage env newId now fid url tenant d)) = flats d
        \<and> settings (snd (createReadingFromImage env newId now fid url tenant d)) = settings d
        \<and> status (newReading fid url tenant now (getYearMonth env now)) = Pending
        \<and> flatId (newReading fid url tenant now (getYearMonth env now)) = fid
        \<and> createdAt (newReading fid url tenant now (getYearMonth env now)) = now
        \<and> yearMonth (newReading fid url tenant now (getYearMonth env now)) = Some (getYearMonth env now))"
proof -
  let ?res = "createReadingFromImage env newId now fid url tenant d"
  let ?ym = "getYearMonth env now"
  let ?nr = "newReading fid url tenant now ?ym"
  let ?blocked = "\<exists>(i, r)\<in>set (readings d). flatId r = fid \<and> bucket env r = ?ym \<and> status r \<noteq> Rejected"
  have free: "fst ?res = Inr () \<and> readings (snd ?res) = insort_key fst (newId, ?nr) (readings d)
        \<and> set (readings (snd ?res)) = insert (newId, ?nr) (set (readings d))
        \<and> flats (snd ?res) = flats d \<and> settings (snd ?res) = settings d
        \<and> status ?nr = Pending \<and> flatId ?nr = fid \<and> createdAt ?nr = now
        \<and> yearMonth ?nr = Some ?ym"
    if no: "\<not> ?blocked"
  proof -
    have "uploadsThisMonth env fid ?ym d = []"
      unfolding uploadsThisMonth_empty_iff by (rule no)
    then have eq: "?res = (Inr (), addDoc newId ?nr d)"
      by (rule createReadingFromImage_free)
    show ?thesis
      unfolding eq by (simp add: addDoc_def set_insort_key newReading_def)
  qed
  have blocked: "snd ?res = d
        \<and> (\<exists>(i, r)\<in>set (readings d).
              flatId r = fid \<and> bucket env r = ?ym \<and> status r \<noteq> Rejected
              \<and> (\<forall>(j, q)\<in>set (readings d).
                    flatId q = fid \<and> bucket env q = ?ym \<and> status q \<noteq> Rejected
                    \<longrightarrow> createdAt q \<le> createdAt r)
              \<and> fst ?res =
                  Inl (Error
                    (if createdAt r \<noteq> 0 \<and> toLocaleDateString env (createdAt r) \<noteq> []
                     then ''Upload limit reached. You already have a pending/approved upload on ''
                            @ toLocaleDateString env (createdAt r) @ ''. Try again next month.''
                     else ''Upload limit reached for this calendar month (pending/approved reading exists).'')))"
    if yes: "?blocked"
  proof -
    have ne: "uploadsThisMonth env fid ?ym d \<noteq> []"
    proof
      assume "uploadsThisMonth env fid ?ym d = []"
      then have "\<not> ?blocked"
        unfolding uploadsThisMonth_empty_iff .
      from this yes show False
        by (rule notE)
    qed
    from createReadingFromImage_blocked [OF ne, of newId url tenant]
    obtain i r where m: "(i, r) \<in> set (uploadsThisMonth env fid ?ym d)"
      and mx: "\<forall>(j, q)\<in>set (uploadsThisMonth env fid ?ym d). createdAt q \<le> createdAt r"
      and eq: "?res =
               (Inl (Error (limitMessage (if createdAt r \<noteq> 0
                                          then Some (toLocaleDateString env (createdAt r))
                                          else None))), d)"
      by blast
    from m have m': "(i, r) \<in> set (readings d)" "flatId r = fid"
      "bucket env r = ?ym" "status r \<noteq> Rejected"
      by (simp_all add: set_uploadsThisMonth)
    have mx': "\<forall>(j, q)\<in>set (readings d).
                    flatId q = fid \<and> bucket env q = ?ym \<and> status q \<noteq> Rejected
                    \<longrightarrow> createdAt q \<le> createdAt r"
    proof (intro ballI, clarify)
      fix j q
      assume "(j, q) \<in> set (readings d)" "bucket env q = ?ym" "status q \<noteq> Rejected"
        "fid = flatId q"
      then have "(j, q) \<in> set (uploadsThisMonth env (flatId q) ?ym d)"
        by (simp add: set_uploadsThisMonth)
      with mx \<open>fid = flatId q\<close> show "createdAt q \<le> createdAt r"
        by blast
    qed
    have msg: "fst ?res = Inl (Error
        (if createdAt r \<noteq> 0 \<and> toLocaleDateString env (createdAt r) \<noteq> []
         then ''Upload limit reached. You already have a pending/approved upload on ''
                @ toLocaleDateString env (createdAt r) @ ''. Try again next month.''
         else ''Upload limit reached for this calendar month (pending/approved reading exists).''))"
      unfolding eq fst_conv limitMessage_def by simp
    have s: "snd ?res = d"
      unfolding eq by simp
    from m'(1) show ?thesis
    proof (intro conjI bexI [of _ "(i, r)"])
      show "snd ?res = d" by (rule s)
      show "case (i, r) of (i, r) \<Rightarrow>
              flatId r = fid \<and> bucket env r = ?ym \<and> status r \<noteq> Rejected
              \<and> (\<forall>(j, q)\<in>set (readings d).
                    flatId q = fid \<and> bucket env q = ?ym \<and> status q \<noteq> Rejected
                    \<longrightarrow> createdAt q \<le> createdAt r)
              \<and> fst ?res =
                  Inl (Error
                    (if createdAt r \<noteq> 0 \<and> toLocaleDateString env (createdAt r) \<noteq> []
                     then ''Upload limit reached. You already have a pending/approved upload on ''
                            @ toLocaleDateString env (createdAt r) @ ''. Try again next month.''
                     else ''Upload limit reached for this calendar month (pending/approved reading exists).''))"
        unfolding prod.case using m'(2-4) mx' msg by (intro conjI)
    qed
  qed
  have iff: "(\<exists>e. fst ?res = Inl e) \<longleftrightarrow> ?blocked"
  proof
    assume "\<exists>e. fst ?res = Inl e"
    then show ?blocked
      using free by (cases ?blocked) auto
  next
    assume ?blocked
    from blocked [OF this] show "\<exists>e. fst ?res = Inl e"
      by (elim conjE bexE) (auto simp only: prod.case_eq_if)
  qed
  show ?thesis
  proof (intro conjI)
    show "(\<exists>e. fst ?res = Inl e) \<longleftrightarrow> ?blocked"
      by (rule iff)
  qed (rule impI, erule blocked, rule impI, erule free)
qed


lemma utcEnv_march: "getYearMonth utcEnv 1741200000000 = ''2025-03''"
  by (simp add: getYearMonth_def utcEnv_def padStart_def showInt_def)

lemma utcEnv_date: "toLocaleDateString utcEnv 1741000000000 = ''3/3/2025''"
  by (simp add: utcEnv_def showInt_def)

lemma example_buckets:
  "bucket env rejectedFeb = ''2025-02''" "bucket env approvedFeb = ''2025-02''"
  "bucket env pendingMar = ''2025-03''" "bucket env approvedJan = ''2025-01''"
  by (simp_all add: bucket_def rejectedFeb_def approvedFeb_def pendingMar_def approvedJan_def
      newReading_def)

lemma example_status:
  "status rejectedFeb = Rejected" "status approvedFeb = Approved"
  "status pendingMar = Pending" "status approvedJan = Approved"
  by (simp_all add: rejectedFeb_def approvedFeb_def pendingMar_def approvedJan_def newReading_def)

lemma example_flatId:
  "flatId rejectedFeb = ''A-101''" "flatId approvedFeb = ''A-101''"
  "flatId pendingMar = ''A-101''" "flatId approvedJan = ''A-101''"
  by (simp_all add: rejectedFeb_def approvedFeb_def pendingMar_def approvedJan_def newReading_def)

lemma pendingMar_createdAt: "createdAt pendingMar = 1741000000000"
  by (simp add: pendingMar_def newReading_def)

lemma exampleDb_readings:
  "set (readings exampleDb) =
     {(''r0'', rejectedFeb), (''r1'', approvedFeb), (''r2'', pendingMar), (''r3'', approvedJan)}"
  by (simp add: exampleDb_def)

section \<open>One upload per flat and month\<close>




























section \<open>Remarks on the previous reading and the displayed total\<close>

text \<open>When the latest approved reading carries neither a corrected nor an OCR value, the
  previous reading falls back to the flat as well.\<close>

lemma finalPreviousReading_without_value:
  assumes "prev readingId fid d = Some (i, p)"
    and "nullish (correctedReading p) (ocrReading p) = None"
  shows "finalPreviousReading readingId fid d =
           (case getFlatByFlatId fid d of
              None \<Rightarrow> 0
            | Some fl \<Rightarrow> (case initialReading fl of None \<Rightarrow> 0 | Some v \<Rightarrow> v))"
  using assms by (simp add: finalPreviousReading_def Let_def split: option.splits)

text \<open>After any approval the displayed total is the stored amount with the minimum price
  of the settings replaced by 25; the two agree exactly when that minimum price is 25.\<close>

lemma calculateGrandTotal_after_approval:
  assumes "getDoc readingId d = Some rd"
  shows "\<exists>r' a. getDoc readingId (snd (approveReading readingId c now d)) = Some r'
           \<and> amount r' = Some a
           \<and> calculateGrandTotal r' = a - getMinimumPrice d + 25
           \<and> (calculateGrandTotal r' = a \<longleftrightarrow> getMinimumPrice d = 25)"
proof -
  let ?r = "approvedFields readingId c now d rd"
  let ?u = "max (c - finalPreviousReading readingId (flatId rd) d) 0"
  have f: "status ?r = Approved" "unitsUsed ?r = Some ?u"
    "tariffAtApproval ?r = Some (getGlobalTariff d)"
    "unitFactorAtApproval ?r = Some (getUnitFactor d)"
    and a: "amount ?r = Some (?u * getUnitFactor d * getGlobalTariff d + getMinimumPrice d)"
    by (simp_all add: approvedFields_def Let_def)
  have t: "calculateGrandTotal ?r = ?u * getUnitFactor d * getGlobalTariff d + 25"
    by (rule calculateGrandTotal_approved [OF f])
  have "calculateGrandTotal ?r
          = (?u * getUnitFactor d * getGlobalTariff d + getMinimumPrice d) - getMinimumPrice d + 25"
    unfolding t by simp
  moreover have "calculateGrandTotal ?r = ?u * getUnitFactor d * getGlobalTariff d + getMinimumPrice d
          \<longleftrightarrow> getMinimumPrice d = 25"
    unfolding t by auto
  ultimately show ?thesis
    using approveReading_doc [OF assms, of c now] a by blast
qed

section \<open>The settings read by an approval\<close>

lemma getters_of_document:
  "settings d = Some data \<Longrightarrow> tariffPerUnit data = Some (JNumber t) \<Longrightarrow> getGlobalTariff d = t"
  "settings d = Some data \<Longrightarrow> minimumPrice data = Some (JNumber m) \<Longrightarrow> getMinimumPrice d = m"
  "settings d = Some data \<Longrightarrow> unitFactor data = Some (JNumber f) \<Longrightarrow> getUnitFactor d = f"
  by (simp_all add: getGlobalTariff_def getMinimumPrice_def getUnitFactor_def)

lemma getters_defaults:
  "settings d = None \<Longrightarrow> getGlobalTariff d = 0 \<and> getMinimumPrice d = 250 \<and> getUnitFactor d = 23 / 10"
  "settings d = Some data \<Longrightarrow> \<forall>n. tariffPerUnit data \<noteq> Some (JNumber n) \<Longrightarrow> getGlobalTariff d = 0"
  "settings d = Some data \<Longrightarrow> \<forall>n. minimumPrice data \<noteq> Some (JNumber n) \<Longrightarrow> getMinimumPrice d = 250"
  "settings d = Some data \<Longrightarrow> \<forall>n. unitFactor data \<noteq> Some (JNumber n) \<Longrightarrow> getUnitFactor d = 23 / 10"
  by (auto simp: getGlobalTariff_def getMinimumPrice_def getUnitFactor_def
      split: option.splits jsval.splits)

lemma tariffOnlyDb_facts:
  "getDoc ''r2'' tariffOnlyDb = Some pendingMar"
  "settings tariffOnlyDb = Some \<lparr>tariffPerUnit = Some (JNumber 8), minimumPrice = None,
                                  unitFactor = None\<rparr>"
  "finalPreviousReading ''r2'' ''A-101'' tariffOnlyDb = 100"
  by (simp_all add: tariffOnlyDb_def updateGlobalTariff_def mergeSettings_def unconfiguredDb_def
      getDoc_def finalPreviousReading_def prev_def prevList_def sortDesc_def exampleDb_def
      approvedFeb_def approvedJan_def rejectedFeb_def pendingMar_def newReading_def nullish_def
      approvedSortKey_def js_or_def)

lemma tunedDb_getDoc: "getDoc ''r2'' tunedDb = Some pendingMar"
  by (simp add: getDoc_def tunedDb_def exampleDb_def)

lemma tunedDb_settings:
  "settings tunedDb = Some \<lparr>tariffPerUnit = Some (JNumber 8), minimumPrice = Some (JNumber 300),
                            unitFactor = Some (JNumber (5 / 2))\<rparr>"
  by (simp add: tunedDb_def)

lemma exampleDb_settings_document:
  "settings exampleDb = Some \<lparr>tariffPerUnit = Some (JNumber (15 / 2)),
                              minimumPrice = Some (JNumber 250),
                              unitFactor = Some (JNumber (23 / 10))\<rparr>"
  by (simp add: exampleDb_def)

lemma tunedDb_previous: "finalPreviousReading ''r2'' ''A-101'' tunedDb = 100"
  by (simp add: finalPreviousReading_def prev_def prevList_def sortDesc_def tunedDb_def exampleDb_def
      approvedFeb_def approvedJan_def rejectedFeb_def pendingMar_def newReading_def nullish_def
      approvedSortKey_def js_or_def)

lemma approved_units_and_previous:
  "previousReading (approvedFields readingId c now d rd) = Some (finalPreviousReading readingId (flatId rd) d)"
  "unitsUsed (approvedFields readingId c now d rd)
     = Some (max (c - finalPreviousReading readingId (flatId rd) d) 0)"
  by (simp_all add: approvedFields_def Let_def)

text \<open>
  Claim C1. Every approval persists
  \<open>amount = unitsUsed * unitFactor * tariffPerUnit + minimumPrice\<close>, where the three
  settings are the numbers that the settings document holds at the time of the approval; the
  minimum price is a summand, not a lower bound of the energy amount. With a previous reading
  of 100, a corrected reading of 150, unit factor 2.3, tariff 7.5 and minimum price 250 the
  amount is 1112.5.
\<close>

theorem approveReading_amount:
  assumes "getDoc readingId d = Some rd"
  shows "\<exists>r' u. getDoc readingId (snd (approveReading readingId corrected now d)) = Some r'
           \<and> unitsUsed r' = Some u
           \<and> amount r' = Some (u * getUnitFactor d * getGlobalTariff d + getMinimumPrice d)
           \<and> (\<forall>data t m f.
                 settings d = Some data \<and> tariffPerUnit data = Some (JNumber t)
                 \<and> minimumPrice data = Some (JNumber m) \<and> unitFactor data = Some (JNumber f)
                 \<longrightarrow> getGlobalTariff d = t \<and> getMinimumPrice d = m \<and> getUnitFactor d = f
                      \<and> amount r' = Some (u * f * t + m))
           \<and> (\<forall>data t. settings d = Some data \<and> tariffPerUnit data = Some (JNumber t)
                 \<longrightarrow> getGlobalTariff d = t)
           \<and> (\<forall>data m. settings d = Some data \<and> minimumPrice data = Some (JNumber m)
                 \<longrightarrow> getMinimumPrice d = m)
           \<and> (\<forall>data f. settings d = Some data \<and> unitFactor data = Some (JNumber f)
                 \<longrightarrow> getUnitFactor d = f)
           \<and> (\<forall>data. settings d = Some data \<and> (\<forall>n. tariffPerUnit data \<noteq> Some (JNumber n))
                 \<longrightarrow> getGlobalTariff d = 0)
           \<and> (\<forall>data. settings d = Some data \<and> (\<forall>n. minimumPrice data \<noteq> Some (JNumber n))
                 \<longrightarrow> getMinimumPrice d = 250)
           \<and> (\<forall>data. settings d = Some data \<and> (\<forall>n. unitFactor data \<noteq> Some (JNumber n))
                 \<longrightarrow> getUnitFactor d = 23 / 10)
           \<and> (settings d = None
                 \<longrightarrow> getGlobalTariff d = 0 \<and> getMinimumPrice d = 250 \<and> getUnitFactor d = 23 / 10)
           \<and> (\<forall>data.
                 settings d = Some data \<and> tariffPerUnit data = Some (JNumber (15 / 2))
                 \<and> minimumPrice data = Some (JNumber 250)
                 \<and> unitFactor data = Some (JNumber (23 / 10))
                 \<and> previousReading r' = Some 100 \<and> corrected = 150
                 \<longrightarrow> u = 50 \<and> amount r' = Some (2225 / 2))
           \<and> (finalPreviousReading readingId (flatId rd) d = 100 \<and> corrected = 150
                \<and> getUnitFactor d = 23 / 10 \<and> getGlobalTariff d = 15 / 2
                \<and> getMinimumPrice d = 250
              \<longrightarrow> previousReading r' = Some 100 \<and> u = 50 \<and> amount r' = Some (2225 / 2))"
proof -
  let ?r = "approvedFields readingId corrected now d rd"
  let ?p = "finalPreviousReading readingId (flatId rd) d"
  let ?u = "max (corrected - ?p) 0"
  have g: "getDoc readingId (snd (approveReading readingId corrected now d)) = Some ?r"
    by (rule approveReading_doc [OF assms])
  have u: "unitsUsed ?r = Some ?u"
    by (simp add: approvedFields_def Let_def)
  have a: "amount ?r = Some (?u * getUnitFactor d * getGlobalTariff d + getMinimumPrice d)"
    by (simp add: approvedFields_def Let_def)
  have p: "previousReading ?r = Some ?p"
    by (simp add: approvedFields_def Let_def)
  have doc: "getGlobalTariff d = t \<and> getMinimumPrice d = m \<and> getUnitFactor d = f
             \<and> amount ?r = Some (?u * f * t + m)"
    if "settings d = Some data \<and> tariffPerUnit data = Some (JNumber t)
        \<and> minimumPrice data = Some (JNumber m) \<and> unitFactor data = Some (JNumber f)"
    for data t m f
  proof -
    from that have "getGlobalTariff d = t" "getMinimumPrice d = m" "getUnitFactor d = f"
      by (simp_all add: getters_of_document)
    with a show ?thesis by simp
  qed
  have ex1: "?u = 50 \<and> amount ?r = Some (2225 / 2)"
    if h: "settings d = Some data \<and> tariffPerUnit data = Some (JNumber (15 / 2))
        \<and> minimumPrice data = Some (JNumber 250)
        \<and> unitFactor data = Some (JNumber (23 / 10))
        \<and> previousReading ?r = Some 100 \<and> corrected = 150"
    for data
  proof -
    from h have s: "settings d = Some data \<and> tariffPerUnit data = Some (JNumber (15 / 2))
        \<and> minimumPrice data = Some (JNumber 250) \<and> unitFactor data = Some (JNumber (23 / 10))"
      by simp
    from h p have v: "?p = 100" "corrected = 150"
      by simp_all
    have "amount ?r = Some (?u * (23 / 10) * (15 / 2) + 250)"
      using doc [OF s] by simp
    then show ?thesis
      unfolding v by simp
  qed
  have ex2: "finalPreviousReading readingId (flatId rd) d = 100 \<and> corrected = 150
                \<and> getUnitFactor d = 23 / 10 \<and> getGlobalTariff d = 15 / 2
                \<and> getMinimumPrice d = 250
              \<longrightarrow> previousReading ?r = Some 100 \<and> ?u = 50 \<and> amount ?r = Some (2225 / 2)"
  proof (intro impI, elim conjE)
    assume v: "finalPreviousReading readingId (flatId rd) d = 100" "corrected = 150"
      "getUnitFactor d = 23 / 10" "getGlobalTariff d = 15 / 2" "getMinimumPrice d = 250"
    show "previousReading ?r = Some 100 \<and> ?u = 50 \<and> amount ?r = Some (2225 / 2)"
      unfolding approvedFields_def Let_def v by simp
  qed
  from doc have doc': "\<forall>data t m f.
                 settings d = Some data \<and> tariffPerUnit data = Some (JNumber t)
                 \<and> minimumPrice data = Some (JNumber m) \<and> unitFactor data = Some (JNumber f)
                 \<longrightarrow> getGlobalTariff d = t \<and> getMinimumPrice d = m \<and> getUnitFactor d = f
                      \<and> amount ?r = Some (?u * f * t + m)"
    by (intro allI impI)
  from ex1 have ex1': "\<forall>data.
                 settings d = Some data \<and> tariffPerUnit data = Some (JNumber (15 / 2))
                 \<and> minimumPrice data = Some (JNumber 250)
                 \<and> unitFactor data = Some (JNumber (23 / 10))
                 \<and> previousReading ?r = Some 100 \<and> corrected = 150
                 \<longrightarrow> ?u = 50 \<and> amount ?r = Some (2225 / 2)"
    by (intro allI impI)
  have pins:
    "\<forall>data t. settings d = Some data \<and> tariffPerUnit data = Some (JNumber t)
       \<longrightarrow> getGlobalTariff d = t"
    "\<forall>data m. settings d = Some data \<and> minimumPrice data = Some (JNumber m)
       \<longrightarrow> getMinimumPrice d = m"
    "\<forall>data f. settings d = Some data \<and> unitFactor data = Some (JNumber f)
       \<longrightarrow> getUnitFactor d = f"
    by (simp_all add: getters_of_document)
  have defaults:
    "\<forall>data. settings d = Some data \<and> (\<forall>n. tariffPerUnit data \<noteq> Some (JNumber n))
       \<longrightarrow> getGlobalTariff d = 0"
    "\<forall>data. settings d = Some data \<and> (\<forall>n. minimumPrice data \<noteq> Some (JNumber n))
       \<longrightarrow> getMinimumPrice d = 250"
    "\<forall>data. settings d = Some data \<and> (\<forall>n. unitFactor data \<noteq> Some (JNumber n))
       \<longrightarrow> getUnitFactor d = 23 / 10"
    "settings d = None
       \<longrightarrow> getGlobalTariff d = 0 \<and> getMinimumPrice d = 250 \<and> getUnitFactor d = 23 / 10"
    using getters_defaults [of d] by blast+
  from g u a doc' pins defaults ex1' ex2 show ?thesis
    by (intro exI [of _ ?r] exI [of _ ?u] conjI)
qed

theorem approveReading_amount_witness:
  "getDoc ''r2'' exampleDb = Some pendingMar
   \<and> amount (the (getDoc ''r2'' (snd (approveReading ''r2'' 150 1741100000000 exampleDb))))
       = Some (2225 / 2)
   \<and> getDoc ''r2'' tunedDb = Some pendingMar
   \<and> getGlobalTariff tunedDb = 8 \<and> getMinimumPrice tunedDb = 300 \<and> getUnitFactor tunedDb = 5 / 2
   \<and> unitsUsed (the (getDoc ''r2'' (snd (approveReading ''r2'' 150 1741100000000 tunedDb))))
       = Some 50
   \<and> amount (the (getDoc ''r2'' (snd (approveReading ''r2'' 150 1741100000000 tunedDb))))
       = Some 1300
   \<and> getDoc ''r2'' tariffOnlyDb = Some pendingMar
   \<and> getGlobalTariff tariffOnlyDb = 8 \<and> getMinimumPrice tariffOnlyDb = 250
   \<and> getUnitFactor tariffOnlyDb = 23 / 10
   \<and> amount (the (getDoc ''r2'' (snd (approveReading ''r2'' 150 1741100000000 tariffOnlyDb))))
       = Some 1170"
proof -
  let ?doc = "\<lparr>tariffPerUnit = Some (JNumber (15 / 2)), minimumPrice = Some (JNumber 250),
               unitFactor = Some (JNumber (23 / 10))\<rparr>"
  let ?tuned = "\<lparr>tariffPerUnit = Some (JNumber 8), minimumPrice = Some (JNumber 300),
                 unitFactor = Some (JNumber (5 / 2))\<rparr>"
  have first: "amount (the (getDoc ''r2'' (snd (approveReading ''r2'' 150 1741100000000 exampleDb))))
       = Some (2225 / 2)"
  proof -
    obtain r' and u :: rat where
      r': "getDoc ''r2'' (snd (approveReading ''r2'' 150 1741100000000 exampleDb)) = Some r'"
      and imp: "\<forall>data.
                 settings exampleDb = Some data \<and> tariffPerUnit data = Some (JNumber (15 / 2))
                 \<and> minimumPrice data = Some (JNumber 250)
                 \<and> unitFactor data = Some (JNumber (23 / 10))
                 \<and> previousReading r' = Some 100 \<and> (150::rat) = 150
                 \<longrightarrow> u = 50 \<and> amount r' = Some (2225 / 2)"
      using approveReading_amount [OF exampleDb_getDoc(3), of 150 1741100000000]
    by (elim exE conjE) (rule that, assumption+)
    from r' have "r' = approvedFields ''r2'' 150 1741100000000 exampleDb pendingMar"
      unfolding approveReading_doc [OF exampleDb_getDoc(3)] by simp
    then have "previousReading r' = Some 100"
      by (simp add: approved_units_and_previous exampleDb_previous pendingMar_flatId)
    with imp [rule_format, of ?doc] have "amount r' = Some (2225 / 2)"
      by (simp add: exampleDb_settings_document)
    with r' show ?thesis by simp
  qed
  have second: "getGlobalTariff tunedDb = 8 \<and> getMinimumPrice tunedDb = 300
      \<and> getUnitFactor tunedDb = 5 / 2
      \<and> unitsUsed (the (getDoc ''r2'' (snd (approveReading ''r2'' 150 1741100000000 tunedDb)))) = Some 50
      \<and> amount (the (getDoc ''r2'' (snd (approveReading ''r2'' 150 1741100000000 tunedDb)))) = Some 1300"
  proof -
    obtain r' and u :: rat where
      r': "getDoc ''r2'' (snd (approveReading ''r2'' 150 1741100000000 tunedDb)) = Some r'"
      and u: "unitsUsed r' = Some u"
      and pin: "\<forall>data t m f.
                 settings tunedDb = Some data \<and> tariffPerUnit data = Some (JNumber t)
                 \<and> minimumPrice data = Some (JNumber m) \<and> unitFactor data = Some (JNumber f)
                 \<longrightarrow> getGlobalTariff tunedDb = t \<and> getMinimumPrice tunedDb = m
                      \<and> getUnitFactor tunedDb = f \<and> amount r' = Some (u * f * t + m)"
      using approveReading_amount [OF tunedDb_getDoc, of 150 1741100000000]
      by (elim exE conjE) (rule that, assumption+)
    from pin [rule_format, of ?tuned 8 300 "5 / 2"]
    have s: "getGlobalTariff tunedDb = 8" "getMinimumPrice tunedDb = 300"
      "getUnitFactor tunedDb = 5 / 2" "amount r' = Some (u * (5 / 2) * 8 + 300)"
      by (simp_all add: tunedDb_settings)
    from r' have "r' = approvedFields ''r2'' 150 1741100000000 tunedDb pendingMar"
      unfolding approveReading_doc [OF tunedDb_getDoc] by simp
    then have "unitsUsed r' = Some 50"
      by (simp add: approved_units_and_previous tunedDb_previous pendingMar_flatId)
    with u have "u = 50" by simp
    with s u r' show ?thesis by simp
  qed
  have third: "getGlobalTariff tariffOnlyDb = 8 \<and> getMinimumPrice tariffOnlyDb = 250
      \<and> getUnitFactor tariffOnlyDb = 23 / 10
      \<and> amount (the (getDoc ''r2'' (snd (approveReading ''r2'' 150 1741100000000 tariffOnlyDb))))
          = Some 1170"
  proof -
    let ?only = "\<lparr>tariffPerUnit = Some (JNumber 8), minimumPrice = None, unitFactor = None\<rparr>"
    obtain r' and u :: rat where
      r': "getDoc ''r2'' (snd (approveReading ''r2'' 150 1741100000000 tariffOnlyDb)) = Some r'"
      and u: "unitsUsed r' = Some u"
      and a: "amount r' = Some (u * getUnitFactor tariffOnlyDb * getGlobalTariff tariffOnlyDb
                                + getMinimumPrice tariffOnlyDb)"
      and t: "\<forall>data t. settings tariffOnlyDb = Some data \<and> tariffPerUnit data = Some (JNumber t)
                 \<longrightarrow> getGlobalTariff tariffOnlyDb = t"
      and m: "\<forall>data. settings tariffOnlyDb = Some data
                 \<and> (\<forall>n. minimumPrice data \<noteq> Some (JNumber n))
                 \<longrightarrow> getMinimumPrice tariffOnlyDb = 250"
      and f: "\<forall>data. settings tariffOnlyDb = Some data
                 \<and> (\<forall>n. unitFactor data \<noteq> Some (JNumber n))
                 \<longrightarrow> getUnitFactor tariffOnlyDb = 23 / 10"
      using approveReading_amount [OF tariffOnlyDb_facts(1), of 150 1741100000000]
      by (elim exE conjE) (rule that, assumption+)
    from t [rule_format, of ?only 8] have t': "getGlobalTariff tariffOnlyDb = 8"
      by (simp add: tariffOnlyDb_facts)
    from m [rule_format, of ?only] have m': "getMinimumPrice tariffOnlyDb = 250"
      by (simp add: tariffOnlyDb_facts)
    from f [rule_format, of ?only] have f': "getUnitFactor tariffOnlyDb = 23 / 10"
      by (simp add: tariffOnlyDb_facts)
    from r' have "r' = approvedFields ''r2'' 150 1741100000000 tariffOnlyDb pendingMar"
      unfolding approveReading_doc [OF tariffOnlyDb_facts(1)] by simp
    then have "unitsUsed r' = Some 50"
      by (simp add: approved_units_and_previous tariffOnlyDb_facts pendingMar_flatId)
    with u have "u = 50" by simp
    with a have "amount r' = Some 1170"
      unfolding t' m' f' by simp
    with t' m' f' r' show ?thesis by simp
  qed
  from first second third exampleDb_getDoc(3) tunedDb_getDoc tariffOnlyDb_facts(1) show ?thesis
    by (intro conjI) simp_all
qed

lemma settings_after_changes:
  "getGlobalTariff (fold applyChange [SetTariff 9, SetMinimumPrice 500, SetUnitFactor 3] d) = 9"
  "getMinimumPrice (fold applyChange [SetTariff 9, SetMinimumPrice 500, SetUnitFactor 3] d) = 500"
  "getUnitFactor (fold applyChange [SetTariff 9, SetMinimumPrice 500, SetUnitFactor 3] d) = 3"
  by (simp_all add: getGlobalTariff_def getMinimumPrice_def getUnitFactor_def updateGlobalTariff_def
      updateMinimumPrice_def updateUnitFactor_def mergeSettings_def split: option.splits)

text \<open>
  Claim C6. An approval stores the tariff and the unit factor that the settings document
  holds at that moment, and the amount computed from them and from the minimum price of the
  document. Changing the global tariff, the minimum price or the unit factor afterwards, any
  number of times, leaves the readings collection as it is, so every stored field of an
  approved reading stays the same.
\<close>

theorem approval_snapshot_frozen:
  assumes "getDoc readingId d = Some rd"
  shows "\<exists>r' u. getDoc readingId (snd (approveReading readingId c now d)) = Some r'
           \<and> status r' = Approved
           \<and> tariffAtApproval r' = Some (getGlobalTariff d)
           \<and> unitFactorAtApproval r' = Some (getUnitFactor d)
           \<and> unitsUsed r' = Some u
           \<and> amount r' = Some (u * getUnitFactor d * getGlobalTariff d + getMinimumPrice d)
           \<and> (\<forall>data t. settings d = Some data \<and> tariffPerUnit data = Some (JNumber t)
                 \<longrightarrow> tariffAtApproval r' = Some t)
           \<and> (\<forall>data f. settings d = Some data \<and> unitFactor data = Some (JNumber f)
                 \<longrightarrow> unitFactorAtApproval r' = Some f)
           \<and> (\<forall>data t m f.
                 settings d = Some data \<and> tariffPerUnit data = Some (JNumber t)
                 \<and> minimumPrice data = Some (JNumber m) \<and> unitFactor data = Some (JNumber f)
                 \<longrightarrow> amount r' = Some (u * f * t + m))
           \<and> readings (fold applyChange chs (snd (approveReading readingId c now d)))
               = readings (snd (approveReading readingId c now d))
           \<and> getDoc readingId (fold applyChange chs (snd (approveReading readingId c now d)))
               = Some r'"
proof -
  let ?r = "approvedFields readingId c now d rd"
  let ?d = "snd (approveReading readingId c now d)"
  let ?u = "max (c - finalPreviousReading readingId (flatId rd) d) 0"
  have g: "getDoc readingId ?d = Some ?r"
    by (rule approveReading_doc [OF assms])
  have f: "readings (fold applyChange chs ?d) = readings ?d"
    by (rule readings_applyChanges)
  then have g': "getDoc readingId (fold applyChange chs ?d) = Some ?r"
    using g by (simp add: getDoc_def)
  have fields: "status ?r = Approved" "tariffAtApproval ?r = Some (getGlobalTariff d)"
    "unitFactorAtApproval ?r = Some (getUnitFactor d)" "unitsUsed ?r = Some ?u"
    "amount ?r = Some (?u * getUnitFactor d * getGlobalTariff d + getMinimumPrice d)"
    by (simp_all add: approvedFields_def Let_def)
  have t: "\<forall>data t. settings d = Some data \<and> tariffPerUnit data = Some (JNumber t)
                 \<longrightarrow> tariffAtApproval ?r = Some t"
    by (simp add: fields getters_of_document)
  have u: "\<forall>data f. settings d = Some data \<and> unitFactor data = Some (JNumber f)
                 \<longrightarrow> unitFactorAtApproval ?r = Some f"
    by (simp add: fields getters_of_document)
  have a: "\<forall>data t m f.
                 settings d = Some data \<and> tariffPerUnit data = Some (JNumber t)
                 \<and> minimumPrice data = Some (JNumber m) \<and> unitFactor data = Some (JNumber f)
                 \<longrightarrow> amount ?r = Some (?u * f * t + m)"
    by (simp add: fields getters_of_document)
  from g fields t u a f g' show ?thesis
    by (intro exI [of _ ?r] exI [of _ ?u] conjI)
qed

theorem approval_snapshot_frozen_witness:
  "getDoc ''r2'' tunedDb = Some pendingMar
   \<and> getGlobalTariff (fold applyChange [SetTariff 9, SetMinimumPrice 500, SetUnitFactor 3]
        (snd (approveReading ''r2'' 150 1741100000000 tunedDb))) = 9
   \<and> getMinimumPrice (fold applyChange [SetTariff 9, SetMinimumPrice 500, SetUnitFactor 3]
        (snd (approveReading ''r2'' 150 1741100000000 tunedDb))) = 500
   \<and> getUnitFactor (fold applyChange [SetTariff 9, SetMinimumPrice 500, SetUnitFactor 3]
        (snd (approveReading ''r2'' 150 1741100000000 tunedDb))) = 3
   \<and> tariffAtApproval (the (getDoc ''r2''
        (fold applyChange [SetTariff 9, SetMinimumPrice 500, SetUnitFactor 3]
          (snd (approveReading ''r2'' 150 1741100000000 tunedDb))))) = Some 8
   \<and> unitFactorAtApproval (the (getDoc ''r2''
        (fold applyChange [SetTariff 9, SetMinimumPrice 500, SetUnitFactor 3]
          (snd (approveReading ''r2'' 150 1741100000000 tunedDb))))) = Some (5 / 2)
   \<and> amount (the (getDoc ''r2''
        (fold applyChange [SetTariff 9, SetMinimumPrice 500, SetUnitFactor 3]
          (snd (approveReading ''r2'' 150 1741100000000 tunedDb))))) = Some 1300"
proof -
  let ?d = "snd (approveReading ''r2'' 150 1741100000000 tunedDb)"
  let ?chs = "[SetTariff 9, SetMinimumPrice 500, SetUnitFactor 3]"
  let ?tuned = "\<lparr>tariffPerUnit = Some (JNumber 8), minimumPrice = Some (JNumber 300),
                 unitFactor = Some (JNumber (5 / 2))\<rparr>"
  obtain r' u where
    g: "getDoc ''r2'' (fold applyChange ?chs ?d) = Some r'"
    and g0: "getDoc ''r2'' ?d = Some r'"
    and u: "unitsUsed r' = Some u"
    and t: "\<forall>data t. settings tunedDb = Some data \<and> tariffPerUnit data = Some (JNumber t)
                 \<longrightarrow> tariffAtApproval r' = Some t"
    and f: "\<forall>data f. settings tunedDb = Some data \<and> unitFactor data = Some (JNumber f)
                 \<longrightarrow> unitFactorAtApproval r' = Some f"
    and a: "\<forall>data t m f.
                 settings tunedDb = Some data \<and> tariffPerUnit data = Some (JNumber t)
                 \<and> minimumPrice data = Some (JNumber m) \<and> unitFactor data = Some (JNumber f)
                 \<longrightarrow> amount r' = Some (u * f * t + m)"
    using approval_snapshot_frozen [OF tunedDb_getDoc, of 150 1741100000000 ?chs]
    by blast
  from t [rule_format, of ?tuned 8] have t': "tariffAtApproval r' = Some 8"
    by (simp add: tunedDb_settings)
  from f [rule_format, of ?tuned "5 / 2"] have f': "unitFactorAtApproval r' = Some (5 / 2)"
    by (simp add: tunedDb_settings)
  from a [rule_format, of ?tuned 8 300 "5 / 2"] have a': "amount r' = Some (u * (5 / 2) * 8 + 300)"
    by (simp add: tunedDb_settings)
  from g0 have "r' = approvedFields ''r2'' 150 1741100000000 tunedDb pendingMar"
    unfolding approveReading_doc [OF tunedDb_getDoc] by simp
  then have "unitsUsed r' = Some 50"
    by (simp add: approved_units_and_previous tunedDb_previous pendingMar_flatId)
  with u have "u = 50" by simp
  with a' have "amount r' = Some 1300" by simp
  with t' f' have "tariffAtApproval (the (Some r')) = Some 8"
    "unitFactorAtApproval (the (Some r')) = Some (5 / 2)" "amount (the (Some r')) = Some 1300"
    by simp_all
  then show ?thesis
    unfolding g [symmetric]
    by (intro conjI) (rule tunedDb_getDoc settings_after_changes | assumption)+
qed

section \<open>The previous reading among equal timestamps\<close>

lemma prevList_filter:
  "prevList readingId fid d =
     filter (\<lambda>(j, q). flatId q = fid \<and> status q = Approved \<and> j \<noteq> readingId) (readings d)"
  by (auto simp: prevList_def intro!: filter_cong)

lemma sortDesc_first:
  assumes xs: "xs = pre @ x # post"
    and pre: "\<forall>y\<in>set pre. key y < key x"
    and post: "\<forall>y\<in>set post. key y \<le> key x"
  shows "\<exists>rest. sortDesc key xs = x # rest"
proof -
  from xs have "xs \<noteq> []" by simp
  from sortDesc_head [OF this, of key]
  obtain y rest where s: "sortDesc key xs = y # rest" and y: "y \<in> set xs"
    and mx: "\<forall>z\<in>set xs. key z \<le> key y"
    by blast
  from mx xs have "key x \<le> key y" by simp
  moreover from y xs pre post have "key y \<le> key x"
    by (auto simp: less_imp_le)
  ultimately have k: "key y = key x" by simp
  let ?P = "\<lambda>z. - key z = - key y"
  have "filter ?P (sort_key (\<lambda>z. - key z) xs) = filter ?P xs"
    by (rule sort_key_stable)
  moreover have "filter ?P (sort_key (\<lambda>z. - key z) xs) = y # filter ?P rest"
    using s by (simp add: sortDesc_def)
  moreover have "filter ?P pre = []"
    using pre k by (auto simp: filter_empty_conv)
  then have "filter ?P xs = x # filter ?P post"
    using k by (simp add: xs)
  ultimately have "y = x" by simp
  with s show ?thesis by simp
qed

lemma prev_first_latest:
  assumes "filter (\<lambda>(j, q). flatId q = fid \<and> status q = Approved \<and> j \<noteq> readingId) (readings d)
             = pre @ (i, p) # post"
    and "\<forall>(j, q)\<in>set pre. approvedSortKey q < approvedSortKey p"
    and "\<forall>(j, q)\<in>set post. approvedSortKey q \<le> approvedSortKey p"
  shows "prev readingId fid d = Some (i, p)"
proof -
  have "\<exists>rest. sortDesc (\<lambda>(i, r). approvedSortKey r) (prevList readingId fid d) = (i, p) # rest"
  proof (rule sortDesc_first)
    show "prevList readingId fid d = pre @ (i, p) # post"
      using assms(1) by (simp add: prevList_filter)
    show "\<forall>y\<in>set pre. (case y of (i, r) \<Rightarrow> approvedSortKey r) < (case (i, p) of (i, r) \<Rightarrow> approvedSortKey r)"
      using assms(2) by auto
    show "\<forall>y\<in>set post. (case y of (i, r) \<Rightarrow> approvedSortKey r) \<le> (case (i, p) of (i, r) \<Rightarrow> approvedSortKey r)"
      using assms(3) by auto
  qed
  then show ?thesis
    by (auto simp: prev_def)
qed

lemma finalPreviousReading_of_prev:
  assumes "prev readingId fid d = Some (i, p)"
  shows "correctedReading p = Some v \<Longrightarrow> finalPreviousReading readingId fid d = v"
    and "correctedReading p = None \<Longrightarrow> ocrReading p = Some v \<Longrightarrow> finalPreviousReading readingId fid d = v"
    and "correctedReading p = None \<Longrightarrow> ocrReading p = None \<Longrightarrow> getFlatByFlatId fid d = Some fl
         \<Longrightarrow> initialReading fl = Some v \<Longrightarrow> finalPreviousReading readingId fid d = v"
    and "correctedReading p = None \<Longrightarrow> ocrReading p = None
         \<Longrightarrow> getFlatByFlatId fid d = None \<or> (\<exists>fl. getFlatByFlatId fid d = Some fl \<and> initialReading fl = None)
         \<Longrightarrow> finalPreviousReading readingId fid d = 0"
  using assms by (auto simp: finalPreviousReading_def Let_def nullish_def)

lemma approvedSortKey_zero: "approvedAt r = Some 0 \<Longrightarrow> approvedSortKey r = createdAt r"
  by (simp add: approvedSortKey_def js_or_def)

text \<open>
  Claim C2. The previous reading of an approval comes from the approved readings of the
  same flat other than the reading being approved. The one whose approval timestamp, or
  creation timestamp when it has no approval timestamp, is the most recent supplies its
  corrected value, or its OCR value when it has no corrected value; among several readings
  with the most recent timestamp it is the first that the query returns. When there is no
  such reading, or that reading has neither value, the initial reading of the flat is taken,
  and 0 when the flat has none.
\<close>

theorem approveReading_previousReading:
  assumes "getDoc readingId d = Some rd"
  shows "\<exists>r'. getDoc readingId (snd (approveReading readingId c now d)) = Some r'
         \<and> (\<forall>i p. (i, p) \<in> set (readings d) \<and> flatId p = flatId rd \<and> status p = Approved
                \<and> i \<noteq> readingId
                \<and> (\<forall>(j, q)\<in>set (readings d).
                      flatId q = flatId rd \<and> status q = Approved \<and> j \<noteq> readingId
                      \<and> (j, q) \<noteq> (i, p)
                      \<longrightarrow> approvedSortKey q < approvedSortKey p)
              \<longrightarrow> (\<forall>v. correctedReading p = Some v \<longrightarrow> previousReading r' = Some v)
                  \<and> (\<forall>v. correctedReading p = None \<and> ocrReading p = Some v
                         \<longrightarrow> previousReading r' = Some v))
         \<and> (\<forall>i p pre post.
                filter (\<lambda>(j, q). flatId q = flatId rd \<and> status q = Approved \<and> j \<noteq> readingId)
                  (readings d) = pre @ (i, p) # post
                \<and> (\<forall>(j, q)\<in>set pre. approvedSortKey q < approvedSortKey p)
                \<and> (\<forall>(j, q)\<in>set post. approvedSortKey q \<le> approvedSortKey p)
              \<longrightarrow> (\<forall>v. correctedReading p = Some v \<longrightarrow> previousReading r' = Some v)
                  \<and> (\<forall>v. correctedReading p = None \<and> ocrReading p = Some v
                         \<longrightarrow> previousReading r' = Some v)
                  \<and> (\<forall>fl v. correctedReading p = None \<and> ocrReading p = None
                         \<and> getFlatByFlatId (flatId rd) d = Some fl \<and> initialReading fl = Some v
                         \<longrightarrow> previousReading r' = Some v)
                  \<and> (correctedReading p = None \<and> ocrReading p = None
                         \<and> (getFlatByFlatId (flatId rd) d = None
                             \<or> (\<exists>fl. getFlatByFlatId (flatId rd) d = Some fl
                                    \<and> initialReading fl = None))
                         \<longrightarrow> previousReading r' = Some 0))
         \<and> (\<forall>fl v. (\<forall>(j, q)\<in>set (readings d).
                       \<not> (flatId q = flatId rd \<and> status q = Approved \<and> j \<noteq> readingId))
                \<and> getFlatByFlatId (flatId rd) d = Some fl \<and> initialReading fl = Some v
              \<longrightarrow> previousReading r' = Some v)
         \<and> ((\<forall>(j, q)\<in>set (readings d).
                \<not> (flatId q = flatId rd \<and> status q = Approved \<and> j \<noteq> readingId))
             \<and> (getFlatByFlatId (flatId rd) d = None
                 \<or> (\<exists>fl. getFlatByFlatId (flatId rd) d = Some fl \<and> initialReading fl = None))
              \<longrightarrow> previousReading r' = Some 0)
         \<and> (\<forall>q t. approvedAt q = Some t \<and> t \<noteq> 0 \<longrightarrow> approvedSortKey q = t)
         \<and> (\<forall>q. approvedAt q = None \<longrightarrow> approvedSortKey q = createdAt q)
         \<and> (\<forall>q. approvedAt q = Some 0 \<longrightarrow> approvedSortKey q = createdAt q)"
proof -
  let ?r = "approvedFields readingId c now d rd"
  let ?fid = "flatId rd"
  have g: "getDoc readingId (snd (approveReading readingId c now d)) = Some ?r"
    by (rule approveReading_doc [OF assms])
  have pr: "previousReading ?r = Some (finalPreviousReading readingId ?fid d)"
    by (rule previousReading_approved)
  have U: "(\<forall>v. correctedReading p = Some v \<longrightarrow> previousReading ?r = Some v)
           \<and> (\<forall>v. correctedReading p = None \<and> ocrReading p = Some v
                  \<longrightarrow> previousReading ?r = Some v)"
    if h: "(i, p) \<in> set (readings d) \<and> flatId p = ?fid \<and> status p = Approved \<and> i \<noteq> readingId
           \<and> (\<forall>(j, q)\<in>set (readings d).
                 flatId q = ?fid \<and> status q = Approved \<and> j \<noteq> readingId \<and> (j, q) \<noteq> (i, p)
                 \<longrightarrow> approvedSortKey q < approvedSortKey p)"
    for i p
  proof -
    from h have mem: "(i, p) \<in> set (prevList readingId ?fid d)"
      by (simp add: set_prevList)
    from h have "\<forall>(j, q)\<in>set (prevList readingId ?fid d).
            (j, q) \<noteq> (i, p) \<longrightarrow> approvedSortKey q < approvedSortKey p"
      by (auto simp: set_prevList)
    with mem have "prev readingId ?fid d = Some (i, p)"
      by (rule prev_unique_latest)
    from finalPreviousReading_of_prev(1,2) [OF this] show ?thesis
      unfolding pr by simp
  qed
  have S: "(\<forall>v. correctedReading p = Some v \<longrightarrow> previousReading ?r = Some v)
           \<and> (\<forall>v. correctedReading p = None \<and> ocrReading p = Some v
                  \<longrightarrow> previousReading ?r = Some v)
           \<and> (\<forall>fl v. correctedReading p = None \<and> ocrReading p = None
                  \<and> getFlatByFlatId ?fid d = Some fl \<and> initialReading fl = Some v
                  \<longrightarrow> previousReading ?r = Some v)
           \<and> (correctedReading p = None \<and> ocrReading p = None
                  \<and> (getFlatByFlatId ?fid d = None
                      \<or> (\<exists>fl. getFlatByFlatId ?fid d = Some fl \<and> initialReading fl = None))
                  \<longrightarrow> previousReading ?r = Some 0)"
    if h: "filter (\<lambda>(j, q). flatId q = ?fid \<and> status q = Approved \<and> j \<noteq> readingId)
                  (readings d) = pre @ (i, p) # post
           \<and> (\<forall>(j, q)\<in>set pre. approvedSortKey q < approvedSortKey p)
           \<and> (\<forall>(j, q)\<in>set post. approvedSortKey q \<le> approvedSortKey p)"
    for i p pre post
  proof -
    from h have "prev readingId ?fid d = Some (i, p)"
      by (intro prev_first_latest [of ?fid readingId d pre i p post]) simp_all
    from finalPreviousReading_of_prev [OF this] show ?thesis
      unfolding pr by simp
  qed
  have none: "prev readingId ?fid d = None"
    if "\<forall>(j, q)\<in>set (readings d). \<not> (flatId q = ?fid \<and> status q = Approved \<and> j \<noteq> readingId)"
  proof -
    have "prevList readingId ?fid d = []"
      using that by (auto simp: prevList_def filter_empty_conv)
    then show ?thesis
      by (simp add: prev_None_iff)
  qed
  have B: "previousReading ?r = Some v"
    if "(\<forall>(j, q)\<in>set (readings d). \<not> (flatId q = ?fid \<and> status q = Approved \<and> j \<noteq> readingId))
        \<and> getFlatByFlatId ?fid d = Some fl \<and> initialReading fl = Some v"
    for fl v
    using none that
    by (simp add: previousReading_approved finalPreviousReading_def Let_def)
  have C: "previousReading ?r = Some 0"
    if "(\<forall>(j, q)\<in>set (readings d). \<not> (flatId q = ?fid \<and> status q = Approved \<and> j \<noteq> readingId))
        \<and> (getFlatByFlatId ?fid d = None
            \<or> (\<exists>fl. getFlatByFlatId ?fid d = Some fl \<and> initialReading fl = None))"
    using none that
    by (auto simp: previousReading_approved finalPreviousReading_def Let_def)
  have K: "\<forall>q t. approvedAt q = Some t \<and> t \<noteq> 0 \<longrightarrow> approvedSortKey q = t"
    "\<forall>q. approvedAt q = None \<longrightarrow> approvedSortKey q = createdAt q"
    "\<forall>q. approvedAt q = Some 0 \<longrightarrow> approvedSortKey q = createdAt q"
    by (simp_all add: approvedSortKey_cases approvedSortKey_zero)
  show ?thesis
  proof (intro exI [of _ ?r] conjI)
    show "getDoc readingId (snd (approveReading readingId c now d)) = Some ?r"
      by (rule g)
  qed ((intro allI impI, (rule U S B C, assumption)) | rule K | (rule impI, rule C, assumption))+
qed

lemma previous_reading_examples_getDoc:
  "getDoc ''r2'' firstUploadDb = Some pendingMar"
  "getDoc ''r2'' noFlatDb = Some pendingMar"
  "getDoc ''r2'' legacyDb = Some pendingMar"
  "getDoc ''r2'' tieDb = Some pendingMar"
  by (simp_all add: getDoc_def firstUploadDb_def noFlatDb_def legacyDb_def tieDb_def)

theorem approveReading_previousReading_witness:
  "getDoc ''r2'' exampleDb = Some pendingMar
   \<and> previousReading (the (getDoc ''r2'' (snd (approveReading ''r2'' 150 1741100000000 exampleDb))))
       = Some 100
   \<and> getDoc ''r2'' legacyDb = Some pendingMar
   \<and> correctedReading legacyOcrFeb = None \<and> ocrReading legacyOcrFeb = Some 77
   \<and> approvedAt legacyOcrFeb = None
   \<and> approvedSortKey approvedFeb < approvedSortKey legacyOcrFeb
   \<and> previousReading (the (getDoc ''r2'' (snd (approveReading ''r2'' 150 1741100000000 legacyDb))))
       = Some 77
   \<and> getDoc ''r2'' tieDb = Some pendingMar
   \<and> approvedSortKey approvedJanLate = approvedSortKey approvedFeb
   \<and> previousReading (the (getDoc ''r2'' (snd (approveReading ''r2'' 150 1741100000000 tieDb))))
       = Some 40
   \<and> getDoc ''r2'' firstUploadDb = Some pendingMar
   \<and> previousReading (the (getDoc ''r2'' (snd (approveReading ''r2'' 150 1741100000000 firstUploadDb))))
       = Some 12
   \<and> getDoc ''r2'' noFlatDb = Some pendingMar
   \<and> previousReading (the (getDoc ''r2'' (snd (approveReading ''r2'' 150 1741100000000 noFlatDb))))
       = Some 0"
proof -
  note g = previous_reading_examples_getDoc
  have unique: "(''r1'', approvedFeb) \<in> set (readings exampleDb) \<and> flatId approvedFeb = flatId pendingMar
      \<and> status approvedFeb = Approved \<and> ''r1'' \<noteq> ''r2''
      \<and> (\<forall>(j, q)\<in>set (readings exampleDb).
             flatId q = flatId pendingMar \<and> status q = Approved \<and> j \<noteq> ''r2''
             \<and> (j, q) \<noteq> (''r1'', approvedFeb)
             \<longrightarrow> approvedSortKey q < approvedSortKey approvedFeb)"
    by (simp add: exampleDb_def approvedFeb_def approvedJan_def rejectedFeb_def pendingMar_def
        newReading_def approvedSortKey_def js_or_def)
  have legacy: "filter (\<lambda>(j, q). flatId q = flatId pendingMar \<and> status q = Approved \<and> j \<noteq> ''r2'')
        (readings legacyDb) = [] @ (''r0'', legacyOcrFeb) # [(''r1'', approvedFeb)]
      \<and> (\<forall>(j, q)\<in>set []. approvedSortKey q < approvedSortKey legacyOcrFeb)
      \<and> (\<forall>(j, q)\<in>set [(''r1'', approvedFeb)]. approvedSortKey q \<le> approvedSortKey legacyOcrFeb)"
    by (simp add: legacyDb_def legacyOcrFeb_def approvedFeb_def pendingMar_def newReading_def
        approvedSortKey_def js_or_def)
  have tie: "filter (\<lambda>(j, q). flatId q = flatId pendingMar \<and> status q = Approved \<and> j \<noteq> ''r2'')
        (readings tieDb) = [] @ (''r0'', approvedJanLate) # [(''r1'', approvedFeb)]
      \<and> (\<forall>(j, q)\<in>set []. approvedSortKey q < approvedSortKey approvedJanLate)
      \<and> (\<forall>(j, q)\<in>set [(''r1'', approvedFeb)]. approvedSortKey q \<le> approvedSortKey approvedJanLate)"
    by (simp add: tieDb_def approvedJanLate_def approvedJan_def approvedFeb_def pendingMar_def
        newReading_def approvedSortKey_def js_or_def)
  have first: "(\<forall>(j, q)\<in>set (readings firstUploadDb).
                  \<not> (flatId q = flatId pendingMar \<and> status q = Approved \<and> j \<noteq> ''r2''))
      \<and> getFlatByFlatId (flatId pendingMar) firstUploadDb = Some flatA101
      \<and> initialReading flatA101 = Some 12"
    by (simp add: firstUploadDb_def exampleDb_def getFlatByFlatId_def flatA101_def pendingMar_def
        newReading_def)
  have noflat: "(\<forall>(j, q)\<in>set (readings noFlatDb).
                  \<not> (flatId q = flatId pendingMar \<and> status q = Approved \<and> j \<noteq> ''r2''))
      \<and> (getFlatByFlatId (flatId pendingMar) noFlatDb = None
          \<or> (\<exists>fl. getFlatByFlatId (flatId pendingMar) noFlatDb = Some fl \<and> initialReading fl = None))"
    by (simp add: noFlatDb_def firstUploadDb_def exampleDb_def getFlatByFlatId_def)
  have vals: "correctedReading approvedFeb = Some 100" "correctedReading legacyOcrFeb = None"
    "ocrReading legacyOcrFeb = Some 77" "approvedAt legacyOcrFeb = None"
    "correctedReading approvedJanLate = Some 40"
    by (simp_all add: approvedFeb_def legacyOcrFeb_def approvedJanLate_def approvedJan_def)
  have keys: "approvedSortKey approvedFeb < approvedSortKey legacyOcrFeb"
    "approvedSortKey approvedJanLate = approvedSortKey approvedFeb"
    by (simp_all add: approvedFeb_def legacyOcrFeb_def approvedJanLate_def approvedJan_def
        approvedSortKey_def js_or_def)
  have e1: "previousReading (the (getDoc ''r2'' (snd (approveReading ''r2'' 150 1741100000000 exampleDb))))
       = Some 100"
  proof -
    obtain r' where
      r: "getDoc ''r2'' (snd (approveReading ''r2'' 150 1741100000000 exampleDb)) = Some r'"
      and U: "\<forall>i p. (i, p) \<in> set (readings exampleDb) \<and> flatId p = flatId pendingMar
                \<and> status p = Approved \<and> i \<noteq> ''r2''
                \<and> (\<forall>(j, q)\<in>set (readings exampleDb).
                      flatId q = flatId pendingMar \<and> status q = Approved \<and> j \<noteq> ''r2''
                      \<and> (j, q) \<noteq> (i, p)
                      \<longrightarrow> approvedSortKey q < approvedSortKey p)
              \<longrightarrow> (\<forall>v. correctedReading p = Some v \<longrightarrow> previousReading r' = Some v)
                  \<and> (\<forall>v. correctedReading p = None \<and> ocrReading p = Some v
                         \<longrightarrow> previousReading r' = Some v)"
      using approveReading_previousReading [OF exampleDb_getDoc(3), of 150 1741100000000]
      by (elim exE conjE) (rule that, assumption+)
    from U [rule_format, of "''r1''" approvedFeb, OF unique]
    have "\<forall>v. correctedReading approvedFeb = Some v \<longrightarrow> previousReading r' = Some v"
      by (rule conjunct1)
    with vals(1) have "previousReading r' = Some 100"
      by blast
    with r show ?thesis by simp
  qed
  have e2: "previousReading (the (getDoc ''r2'' (snd (approveReading ''r2'' 150 1741100000000 legacyDb))))
       = Some 77"
  proof -
    obtain r' where
      r: "getDoc ''r2'' (snd (approveReading ''r2'' 150 1741100000000 legacyDb)) = Some r'"
      and S: "\<forall>i p pre post.
                filter (\<lambda>(j, q). flatId q = flatId pendingMar \<and> status q = Approved \<and> j \<noteq> ''r2'')
                  (readings legacyDb) = pre @ (i, p) # post
                \<and> (\<forall>(j, q)\<in>set pre. approvedSortKey q < approvedSortKey p)
                \<and> (\<forall>(j, q)\<in>set post. approvedSortKey q \<le> approvedSortKey p)
              \<longrightarrow> (\<forall>v. correctedReading p = Some v \<longrightarrow> previousReading r' = Some v)
                  \<and> (\<forall>v. correctedReading p = None \<and> ocrReading p = Some v
                         \<longrightarrow> previousReading r' = Some v)
                  \<and> (\<forall>fl v. correctedReading p = None \<and> ocrReading p = None
                         \<and> getFlatByFlatId (flatId pendingMar) legacyDb = Some fl
                         \<and> initialReading fl = Some v
                         \<longrightarrow> previousReading r' = Some v)
                  \<and> (correctedReading p = None \<and> ocrReading p = None
                         \<and> (getFlatByFlatId (flatId pendingMar) legacyDb = None
                             \<or> (\<exists>fl. getFlatByFlatId (flatId pendingMar) legacyDb = Some fl
                                    \<and> initialReading fl = None))
                         \<longrightarrow> previousReading r' = Some 0)"
      using approveReading_previousReading [OF g(3), of 150 1741100000000]
      by (elim exE conjE) (rule that, assumption+)
    from S [rule_format, of "[]" "''r0''" legacyOcrFeb "[(''r1'', approvedFeb)]", OF legacy]
    have "\<forall>v. correctedReading legacyOcrFeb = None \<and> ocrReading legacyOcrFeb = Some v
              \<longrightarrow> previousReading r' = Some v"
      by (elim conjE)
    with vals(2,3) have "previousReading r' = Some 77"
      by blast
    with r show ?thesis by simp
  qed
  have e3: "previousReading (the (getDoc ''r2'' (snd (approveReading ''r2'' 150 1741100000000 tieDb))))
       = Some 40"
  proof -
    obtain r' where
      r: "getDoc ''r2'' (snd (approveReading ''r2'' 150 1741100000000 tieDb)) = Some r'"
      and S: "\<forall>i p pre post.
                filter (\<lambda>(j, q). flatId q = flatId pendingMar \<and> status q = Approved \<and> j \<noteq> ''r2'')
                  (readings tieDb) = pre @ (i, p) # post
                \<and> (\<forall>(j, q)\<in>set pre. approvedSortKey q < approvedSortKey p)
                \<and> (\<forall>(j, q)\<in>set post. approvedSortKey q \<le> approvedSortKey p)
              \<longrightarrow> (\<forall>v. correctedReading p = Some v \<longrightarrow> previousReading r' = Some v)
                  \<and> (\<forall>v. correctedReading p = None \<and> ocrReading p = Some v
                         \<longrightarrow> previousReading r' = Some v)
                  \<and> (\<forall>fl v. correctedReading p = None \<and> ocrReading p = None
                         \<and> getFlatByFlatId (flatId pendingMar) tieDb = Some fl
                         \<and> initialReading fl = Some v
                         \<longrightarrow> previousReading r' = Some v)
                  \<and> (correctedReading p = None \<and> ocrReading p = None
                         \<and> (getFlatByFlatId (flatId pendingMar) tieDb = None
                             \<or> (\<exists>fl. getFlatByFlatId (flatId pendingMar) tieDb = Some fl
                                    \<and> initialReading fl = None))
                         \<longrightarrow> previousReading r' = Some 0)"
      using approveReading_previousReading [OF g(4), of 150 1741100000000]
      by (elim exE conjE) (rule that, assumption+)
    from S [rule_format, of "[]" "''r0''" approvedJanLate "[(''r1'', approvedFeb)]", OF tie]
    have "\<forall>v. correctedReading approvedJanLate = Some v \<longrightarrow> previousReading r' = Some v"
      by (rule conjunct1)
    with vals(5) have "previousReading r' = Some 40"
      by blast
    with r show ?thesis by simp
  qed
  have e4: "previousReading (the (getDoc ''r2'' (snd (approveReading ''r2'' 150 1741100000000 firstUploadDb))))
       = Some 12"
  proof -
    obtain r' where
      r: "getDoc ''r2'' (snd (approveReading ''r2'' 150 1741100000000 firstUploadDb)) = Some r'"
      and B: "\<forall>fl v. (\<forall>(j, q)\<in>set (readings firstUploadDb).
                       \<not> (flatId q = flatId pendingMar \<and> status q = Approved \<and> j \<noteq> ''r2''))
                \<and> getFlatByFlatId (flatId pendingMar) firstUploadDb = Some fl
                \<and> initialReading fl = Some v
              \<longrightarrow> previousReading r' = Some v"
      using approveReading_previousReading [OF g(1), of 150 1741100000000]
      by (elim exE conjE) (rule that, assumption+)
    from B [rule_format, of flatA101 12, OF first] r show ?thesis by simp
  qed
  have e5: "previousReading (the (getDoc ''r2'' (snd (approveReading ''r2'' 150 1741100000000 noFlatDb))))
       = Some 0"
  proof -
    obtain r' where
      r: "getDoc ''r2'' (snd (approveReading ''r2'' 150 1741100000000 noFlatDb)) = Some r'"
      and C: "(\<forall>(j, q)\<in>set (readings noFlatDb).
                \<not> (flatId q = flatId pendingMar \<and> status q = Approved \<and> j \<noteq> ''r2''))
             \<and> (getFlatByFlatId (flatId pendingMar) noFlatDb = None
                 \<or> (\<exists>fl. getFlatByFlatId (flatId pendingMar) noFlatDb = Some fl
                        \<and> initialReading fl = None))
              \<longrightarrow> previousReading r' = Some 0"
      using approveReading_previousReading [OF g(2), of 150 1741100000000]
      by (elim exE conjE) (rule that, assumption+)
    from C [rule_format, OF noflat] r show ?thesis by simp
  qed
  from exampleDb_getDoc(3) e1 g(3) vals(2,3,4) keys(1) e2 g(4) keys(2) e3 g(1) e4 g(2) e5
  show ?thesis
    by (intro conjI)
qed

section \<open>The bucket of a reading at the upload gate\<close>

lemma bucket_stored: "yearMonth r = Some ym \<Longrightarrow> bucket env r = ym"
  by (simp add: bucket_def)

lemma bucket_derived: "yearMonth r = None \<Longrightarrow> bucket env r = getYearMonth env (createdAt r)"
  by (simp add: bucket_def js_or_def)

text \<open>
  Claim C4. \<open>createReadingFromImage\<close> fails if and only if some reading of the flat lies
  in the current month and is not rejected, where a reading lies in the month of its stored
  \<open>yearMonth\<close> or, when it has none, in the year-month of its creation timestamp. It then
  leaves the database as it is and throws the upload-limit message, which names the date
  of the latest such upload when that reading has a creation timestamp. Otherwise the new
  reading is inserted, with status pending.
\<close>

theorem createReadingFromImage_gate:
  "((\<exists>e. fst (createReadingFromImage env newId now fid url tenant d) = Inl e) \<longleftrightarrow>
      (\<exists>(i, r)\<in>set (readings d).
          flatId r = fid \<and> bucket env r = getYearMonth env now \<and> status r \<noteq> Rejected))
   \<and> ((\<exists>(i, r)\<in>set (readings d).
          flatId r = fid \<and> bucket env r = getYearMonth env now \<and> status r \<noteq> Rejected) \<longrightarrow>
        snd (createReadingFromImage env newId now fid url tenant d) = d
        \<and> (\<exists>(i, r)\<in>set (readings d).
              flatId r = fid \<and> bucket env r = getYearMonth env now \<and> status r \<noteq> Rejected
              \<and> (\<forall>(j, q)\<in>set (readings d).
                    flatId q = fid \<and> bucket env q = getYearMonth env now \<and> status q \<noteq> Rejected
                    \<longrightarrow> createdAt q \<le> createdAt r)
              \<and> fst (createReadingFromImage env newId now fid url tenant d) =
                  Inl (Error
                    (if createdAt r \<noteq> 0 \<and> toLocaleDateString env (createdAt r) \<noteq> []
                     then ''Upload limit reached. You already have a pending/approved upload on ''
                            @ toLocaleDateString env (createdAt r) @ ''. Try again next month.''
                     else ''Upload limit reached for this calendar month (pending/approved reading exists).''))))
   \<and> (\<not> (\<exists>(i, r)\<in>set (readings d).
          flatId r = fid \<and> bucket env r = getYearMonth env now \<and> status r \<noteq> Rejected) \<longrightarrow>
        fst (createReadingFromImage env newId now fid url tenant d) = Inr ()
        \<and> readings (snd (createReadingFromImage env newId now fid url tenant d)) =
            insort_key fst (newId, newReading fid url tenant now (getYearMonth env now)) (readings d)
        \<and> set (readings (snd (createReadingFromImage env newId now fid url tenant d))) =
            insert (newId, newReading fid url tenant now (getYearMonth env now)) (set (readings d))
        \<and> flats (snd (createReadingFromImage env newId now fid url tenant d)) = flats d
        \<and> settings (snd (createReadingFromImage env newId now fid url tenant d)) = settings d
        \<and> status (newReading fid url tenant now (getYearMonth env now)) = Pending
        \<and> flatId (newReading fid url tenant now (getYearMonth env now)) = fid
        \<and> createdAt (newReading fid url tenant now (getYearMonth env now)) = now
        \<and> yearMonth (newReading fid url tenant now (getYearMonth env now)) = Some (getYearMonth env now))
   \<and> (\<forall>r ym. yearMonth r = Some ym \<longrightarrow> bucket env r = ym)
   \<and> (\<forall>r. yearMonth r = None \<longrightarrow> bucket env r = getYearMonth env (createdAt r))"
proof -
  note old = createReadingFromImage_gate_behaviour [of env newId now fid url tenant d]
  have p1: "\<forall>r ym. yearMonth r = Some ym \<longrightarrow> bucket env r = ym"
    by (simp add: bucket_stored)
  have p2: "\<forall>r. yearMonth r = None \<longrightarrow> bucket env r = getYearMonth env (createdAt r)"
    by (simp add: bucket_derived)
  show ?thesis
    by (intro conjI)
      (rule old [THEN conjunct1] old [THEN conjunct2, THEN conjunct1]
        old [THEN conjunct2, THEN conjunct2] p1 p2)+
qed

lemma utcEnv_months:
  "getYearMonth utcEnv 1740900000000 = ''2025-03''"
  "getYearMonth utcEnv 1738900000000 = ''2025-02''"
  by (simp_all add: getYearMonth_def utcEnv_def padStart_def showInt_def)

lemma utcEnv_date_legacy: "toLocaleDateString utcEnv 1740900000000 = ''3/2/2025''"
  by (simp add: utcEnv_def showInt_def)

lemma legacy_fields:
  "yearMonth legacyPendingMar = None" "createdAt legacyPendingMar = 1740900000000"
  "status legacyPendingMar = Pending" "flatId legacyPendingMar = ''A-101''"
  "yearMonth legacyOcrFeb = None" "createdAt legacyOcrFeb = 1738900000000"
  "status legacyOcrFeb = Approved" "flatId legacyOcrFeb = ''A-101''"
  by (simp_all add: legacyPendingMar_def legacyOcrFeb_def)

lemma legacy_readings:
  "set (readings legacyGateDb) = {(''r0'', legacyOcrFeb), (''r5'', legacyPendingMar)}"
  "set (readings legacyFebDb) = {(''r0'', legacyOcrFeb)}"
  by (simp_all add: legacyGateDb_def legacyFebDb_def)

theorem createReadingFromImage_gate_witness:
  "(\<exists>(i, r)\<in>set (readings exampleDb).
      flatId r = ''A-101'' \<and> bucket utcEnv r = getYearMonth utcEnv 1741200000000
      \<and> status r \<noteq> Rejected)
   \<and> createReadingFromImage utcEnv ''r4'' 1741200000000 ''A-101'' ''data:image/jpeg;base64,EEEE''
        None exampleDb =
       (Inl (Error ''Upload limit reached. You already have a pending/approved upload on 3/3/2025. Try again next month.''),
        exampleDb)
   \<and> \<not> (\<exists>(i, r)\<in>set (readings exampleDb).
      flatId r = ''B-202'' \<and> bucket utcEnv r = getYearMonth utcEnv 1741200000000
      \<and> status r \<noteq> Rejected)
   \<and> fst (createReadingFromImage utcEnv ''r4'' 1741200000000 ''B-202'' ''data:image/jpeg;base64,EEEE''
        (Some 7) exampleDb) = Inr ()
   \<and> (''r4'', newReading ''B-202'' ''data:image/jpeg;base64,EEEE'' (Some 7) 1741200000000 ''2025-03'')
       \<in> set (readings (snd (createReadingFromImage utcEnv ''r4'' 1741200000000 ''B-202''
             ''data:image/jpeg;base64,EEEE'' (Some 7) exampleDb)))
   \<and> yearMonth legacyPendingMar = None
   \<and> bucket utcEnv legacyPendingMar = ''2025-03''
   \<and> createReadingFromImage utcEnv ''r6'' 1741200000000 ''A-101'' ''data:image/jpeg;base64,EEEE''
        None legacyGateDb =
       (Inl (Error ''Upload limit reached. You already have a pending/approved upload on 3/2/2025. Try again next month.''),
        legacyGateDb)
   \<and> yearMonth legacyOcrFeb = None
   \<and> bucket utcEnv legacyOcrFeb = ''2025-02''
   \<and> status legacyOcrFeb \<noteq> Rejected
   \<and> fst (createReadingFromImage utcEnv ''r6'' 1741200000000 ''A-101'' ''data:image/jpeg;base64,EEEE''
        None legacyFebDb) = Inr ()"
proof -
  let ?blockedA = "\<exists>(i, r)\<in>set (readings exampleDb).
      flatId r = ''A-101'' \<and> bucket utcEnv r = getYearMonth utcEnv 1741200000000
      \<and> status r \<noteq> Rejected"
  let ?blockedB = "\<exists>(i, r)\<in>set (readings exampleDb).
      flatId r = ''B-202'' \<and> bucket utcEnv r = getYearMonth utcEnv 1741200000000
      \<and> status r \<noteq> Rejected"
  let ?blockedC = "\<exists>(i, r)\<in>set (readings legacyGateDb).
      flatId r = ''A-101'' \<and> bucket utcEnv r = getYearMonth utcEnv 1741200000000
      \<and> status r \<noteq> Rejected"
  let ?blockedD = "\<exists>(i, r)\<in>set (readings legacyFebDb).
      flatId r = ''A-101'' \<and> bucket utcEnv r = getYearMonth utcEnv 1741200000000
      \<and> status r \<noteq> Rejected"
  let ?resA = "createReadingFromImage utcEnv ''r4'' 1741200000000 ''A-101''
       ''data:image/jpeg;base64,EEEE'' None exampleDb"
  let ?resB = "createReadingFromImage utcEnv ''r4'' 1741200000000 ''B-202''
       ''data:image/jpeg;base64,EEEE'' (Some 7) exampleDb"
  let ?resC = "createReadingFromImage utcEnv ''r6'' 1741200000000 ''A-101''
       ''data:image/jpeg;base64,EEEE'' None legacyGateDb"
  let ?resD = "createReadingFromImage utcEnv ''r6'' 1741200000000 ''A-101''
       ''data:image/jpeg;base64,EEEE'' None legacyFebDb"
  note gateA = createReadingFromImage_gate [of utcEnv "''r4''" 1741200000000 "''A-101''"
      "''data:image/jpeg;base64,EEEE''" None exampleDb]
  note gateB = createReadingFromImage_gate [of utcEnv "''r4''" 1741200000000 "''B-202''"
      "''data:image/jpeg;base64,EEEE''" "Some 7" exampleDb]
  note gateC = createReadingFromImage_gate [of utcEnv "''r6''" 1741200000000 "''A-101''"
      "''data:image/jpeg;base64,EEEE''" None legacyGateDb]
  note gateD = createReadingFromImage_gate [of utcEnv "''r6''" 1741200000000 "''A-101''"
      "''data:image/jpeg;base64,EEEE''" None legacyFebDb]
  note derived = gateC [THEN conjunct2, THEN conjunct2, THEN conjunct2, THEN conjunct2, rule_format]
  have bM: "bucket utcEnv legacyPendingMar = ''2025-03''"
    using derived [of legacyPendingMar] by (simp add: legacy_fields utcEnv_months)
  have bF: "bucket utcEnv legacyOcrFeb = ''2025-02''"
    using derived [of legacyOcrFeb] by (simp add: legacy_fields utcEnv_months)
  have a: ?blockedA
    by (simp add: exampleDb_readings utcEnv_march example_buckets example_status example_flatId)
  have b: "\<not> ?blockedB"
    by (simp add: exampleDb_readings example_flatId)
  have c: ?blockedC
    by (simp add: legacy_readings utcEnv_march bM bF legacy_fields)
  have d: "\<not> ?blockedD"
    by (simp add: legacy_readings utcEnv_march bF)
  have A: "?resA = (Inl (Error ''Upload limit reached. You already have a pending/approved upload on 3/3/2025. Try again next month.''), exampleDb)"
  proof -
    from gateA [THEN conjunct2, THEN conjunct1] a
    have both: "snd ?resA = exampleDb
        \<and> (\<exists>(i, r)\<in>set (readings exampleDb).
              flatId r = ''A-101'' \<and> bucket utcEnv r = getYearMonth utcEnv 1741200000000
              \<and> status r \<noteq> Rejected
              \<and> (\<forall>(j, q)\<in>set (readings exampleDb).
                    flatId q = ''A-101'' \<and> bucket utcEnv q = getYearMonth utcEnv 1741200000000
                    \<and> status q \<noteq> Rejected
                    \<longrightarrow> createdAt q \<le> createdAt r)
              \<and> fst ?resA =
                  Inl (Error
                    (if createdAt r \<noteq> 0 \<and> toLocaleDateString utcEnv (createdAt r) \<noteq> []
                     then ''Upload limit reached. You already have a pending/approved upload on ''
                            @ toLocaleDateString utcEnv (createdAt r) @ ''. Try again next month.''
                     else ''Upload limit reached for this calendar month (pending/approved reading exists).'')))"
      by (rule mp)
    then obtain i r where ir: "(i, r) \<in> set (readings exampleDb)"
      and r: "bucket utcEnv r = getYearMonth utcEnv 1741200000000" "status r \<noteq> Rejected"
      and msg: "fst ?resA = Inl (Error
                    (if createdAt r \<noteq> 0 \<and> toLocaleDateString utcEnv (createdAt r) \<noteq> []
                     then ''Upload limit reached. You already have a pending/approved upload on ''
                            @ toLocaleDateString utcEnv (createdAt r) @ ''. Try again next month.''
                     else ''Upload limit reached for this calendar month (pending/approved reading exists).''))"
      by blast
    from ir r have "r = pendingMar"
      by (auto simp: exampleDb_readings utcEnv_march example_buckets)
    with msg have "fst ?resA = Inl (Error ''Upload limit reached. You already have a pending/approved upload on 3/3/2025. Try again next month.'')"
      by (simp add: pendingMar_createdAt utcEnv_date)
    with both show ?thesis
      by (simp add: prod_eq_iff)
  qed
  have C: "?resC = (Inl (Error ''Upload limit reached. You already have a pending/approved upload on 3/2/2025. Try again next month.''), legacyGateDb)"
  proof -
    from gateC [THEN conjunct2, THEN conjunct1] c
    have both: "snd ?resC = legacyGateDb
        \<and> (\<exists>(i, r)\<in>set (readings legacyGateDb).
              flatId r = ''A-101'' \<and> bucket utcEnv r = getYearMonth utcEnv 1741200000000
              \<and> status r \<noteq> Rejected
              \<and> (\<forall>(j, q)\<in>set (readings legacyGateDb).
                    flatId q = ''A-101'' \<and> bucket utcEnv q = getYearMonth utcEnv 1741200000000
                    \<and> status q \<noteq> Rejected
                    \<longrightarrow> createdAt q \<le> createdAt r)
              \<and> fst ?resC =
                  Inl (Error
                    (if createdAt r \<noteq> 0 \<and> toLocaleDateString utcEnv (createdAt r) \<noteq> []
                     then ''Upload limit reached. You already have a pending/approved upload on ''
                            @ toLocaleDateString utcEnv (createdAt r) @ ''. Try again next month.''
                     else ''Upload limit reached for this calendar month (pending/approved reading exists).'')))"
      by (rule mp)
    then obtain i r where ir: "(i, r) \<in> set (readings legacyGateDb)"
      and r: "bucket utcEnv r = getYearMonth utcEnv 1741200000000" "status r \<noteq> Rejected"
      and msg: "fst ?resC = Inl (Error
                    (if createdAt r \<noteq> 0 \<and> toLocaleDateString utcEnv (createdAt r) \<noteq> []
                     then ''Upload limit reached. You already have a pending/approved upload on ''
                            @ toLocaleDateString utcEnv (createdAt r) @ ''. Try again next month.''
                     else ''Upload limit reached for this calendar month (pending/approved reading exists).''))"
      by blast
    from ir r have "r = legacyPendingMar"
      by (auto simp: legacy_readings utcEnv_march bF)
    with msg have "fst ?resC = Inl (Error ''Upload limit reached. You already have a pending/approved upload on 3/2/2025. Try again next month.'')"
      by (simp add: legacy_fields utcEnv_date_legacy)
    with both show ?thesis
      by (simp add: prod_eq_iff)
  qed
  from gateB [THEN conjunct2, THEN conjunct2, THEN conjunct1] b
  have B1: "fst ?resB = Inr ()"
    and B2: "set (readings (snd ?resB)) =
            insert (''r4'', newReading ''B-202'' ''data:image/jpeg;base64,EEEE'' (Some 7)
              1741200000000 (getYearMonth utcEnv 1741200000000)) (set (readings exampleDb))"
    by blast+
  from B2 have B3: "(''r4'', newReading ''B-202'' ''data:image/jpeg;base64,EEEE'' (Some 7) 1741200000000 ''2025-03'')
       \<in> set (readings (snd ?resB))"
    by (simp add: utcEnv_march)
  from gateD [THEN conjunct2, THEN conjunct2, THEN conjunct1] d
  have D1: "fst ?resD = Inr ()"
    by blast
  have nr: "status legacyOcrFeb \<noteq> Rejected"
    by (simp add: legacy_fields)
  from a A b B1 B3 legacy_fields(1) bM C legacy_fields(5) bF nr D1 show ?thesis
    by (intro conjI)
qed

section \<open>The race of two uploads\<close>

lemma createReadingFromImage_steps:
  "createReadingFromImage env newId now fid url tenant d =
     (case uploadCheck env now fid d of
        Inl e \<Rightarrow> (Inl e, d)
      | Inr ym \<Rightarrow> (Inr (), uploadWrite newId now fid url tenant ym d))"
  by (simp add: createReadingFromImage_def uploadCheck_def uploadWrite_def Let_def
      split: list.splits prod.splits)





lemma sequential_is_overlapping:
  assumes "reachableBy freshId env d0 d"
  shows "reachableOverlapping env d0 d []"
  using assms
  by (induction rule: reachableBy.induct) (auto intro: overlapping_start overlapping_whole)




end
